theory Spec2Isabelle
  imports Main "HOL-Library.AList" "HOL-Library.Monad_Syntax" "HOL-Library.Multiset"
begin

section \<open>Squad Up: a shallow embedding of the client logic and the email relay\<close>

text \<open>
  The development follows \<^verbatim>\<open>src/src/main.tsx\<close> (the React client) and
  \<^verbatim>\<open>src/api/send-notification.js\<close> (the serverless relay).

  Conventions of the embedding.
  \<^item> A JavaScript string is a \<open>string\<close>; each \<open>char\<close> stands for one UTF-16 code unit
    in the range U+0000 to U+00FF. Code units above U+00FF are outside the model.
  \<^item> A JavaScript number that holds a count or a capacity is an \<open>int\<close> (the values are
    integers far inside the range where double arithmetic is exact). The result of
    \<^verbatim>\<open>Date.prototype.getTime\<close> is an \<open>int option\<close>, \<open>None\<close> being \<^verbatim>\<open>NaN\<close>.
  \<^item> An optional property (\<^verbatim>\<open>message?: string\<close>) and a nullable column
    (\<^verbatim>\<open>string | null\<close>) are \<open>string option\<close>.
  \<^item> What the runtime supplies (the date parser of \<^verbatim>\<open>new Date(s)\<close> in the local time
    zone, \<^verbatim>\<open>Date.now()\<close>, the engine's \<^verbatim>\<open>Array.prototype.sort\<close>, the session
    user, the outcome of a network call) is a parameter of the function that uses it.
\<close>

subsection \<open>Characters, trimming and the phone sanitiser\<close>

text \<open>The class \<^verbatim>\<open>\d\<close> of a JavaScript regular expression: the ten ASCII digits.\<close>

definition is_digit :: "char \<Rightarrow> bool" where
  "is_digit c = (c \<in> set ''0123456789'')"

text \<open>
  The class \<^verbatim>\<open>\s\<close>, which is also what \<^verbatim>\<open>String.prototype.trim\<close> strips: tab, line
  feed, vertical tab, form feed, carriage return, space and the no-break space U+00A0
  (the members of the class below U+0100).
\<close>

definition is_space :: "char \<Rightarrow> bool" where
  "is_space c = (c \<in> set [CHR 0x09, CHR 0x0A, CHR 0x0B, CHR 0x0C, CHR 0x0D, CHR 0x20, CHR 0xA0])"

text \<open>\<^verbatim>\<open>s.trim()\<close>: white space removed from both ends.\<close>

definition trim :: "string \<Rightarrow> string" where
  "trim s = rev (dropWhile is_space (rev (dropWhile is_space s)))"

text \<open>
  \<^verbatim>\<open>function sanitizePhone(p) { return p.replace(/[^+\d]/g, ""); }\<close>

  The pattern is the negated class \<^verbatim>\<open>[^+\d]\<close>; with the \<^verbatim>\<open>g\<close> flag every code unit
  in the class is replaced by the empty string.
\<close>

definition not_plus_or_digit :: "char \<Rightarrow> bool" where
  "not_plus_or_digit c = (\<not> (c = CHR ''+'' \<or> is_digit c))"

definition sanitizePhone :: "string \<Rightarrow> string" where
  "sanitizePhone p = filter (\<lambda>c. \<not> not_plus_or_digit c) p"

subsection \<open>Regular expressions\<close>

text \<open>
  The three patterns of the validators use character classes, concatenation, \<^verbatim>\<open>?\<close>,
  \<^verbatim>\<open>+\<close> and bounded repetition only, anchored at both ends. For such a pattern
  \<^verbatim>\<open>re.test(s)\<close> holds exactly when the whole of \<open>s\<close> is in the language of the
  pattern. The patterns are written as data and matched by derivatives.
\<close>

datatype rexp =
    Zero
  | One
  | Cls "char \<Rightarrow> bool"
  | Seq rexp rexp
  | Alt rexp rexp
  | Star rexp

fun nullable :: "rexp \<Rightarrow> bool" where
  "nullable Zero = False"
| "nullable One = True"
| "nullable (Cls p) = False"
| "nullable (Seq r s) = (nullable r \<and> nullable s)"
| "nullable (Alt r s) = (nullable r \<or> nullable s)"
| "nullable (Star r) = True"

fun deriv :: "char \<Rightarrow> rexp \<Rightarrow> rexp" where
  "deriv c Zero = Zero"
| "deriv c One = Zero"
| "deriv c (Cls p) = (if p c then One else Zero)"
| "deriv c (Seq r s) =
     (if nullable r then Alt (Seq (deriv c r) s) (deriv c s) else Seq (deriv c r) s)"
| "deriv c (Alt r s) = Alt (deriv c r) (deriv c s)"
| "deriv c (Star r) = Seq (deriv c r) (Star r)"

text \<open>\<^verbatim>\<open>/^r$/.test(s)\<close>\<close>

fun test :: "rexp \<Rightarrow> string \<Rightarrow> bool" where
  "test r [] = nullable r"
| "test r (c # cs) = test (deriv c r) cs"

text \<open>\<^verbatim>\<open>r?\<close>, \<^verbatim>\<open>r+\<close>, \<^verbatim>\<open>r{n}\<close> and \<^verbatim>\<open>r{n,}\<close>.\<close>

definition Opt :: "rexp \<Rightarrow> rexp" where
  "Opt r = Alt r One"

definition Plus :: "rexp \<Rightarrow> rexp" where
  "Plus r = Seq r (Star r)"

fun Times :: "nat \<Rightarrow> rexp \<Rightarrow> rexp" where
  "Times 0 r = One"
| "Times (Suc n) r = Seq r (Times n r)"

definition AtLeast :: "nat \<Rightarrow> rexp \<Rightarrow> rexp" where
  "AtLeast n r = Seq (Times n r) (Star r)"

definition Chr :: "char \<Rightarrow> rexp" where
  "Chr a = Cls (\<lambda>c. c = a)"

text \<open>\<^verbatim>\<open>[^\s@]\<close>\<close>

definition not_space_or_at :: "char \<Rightarrow> bool" where
  "not_space_or_at c = (\<not> (is_space c \<or> c = CHR ''@''))"

text \<open>\<^verbatim>\<open>[\d\s().-]\<close>\<close>

definition phone_tail :: "char \<Rightarrow> bool" where
  "phone_tail c = (is_digit c \<or> is_space c \<or> c \<in> set ''().-'')"

text \<open>\<^verbatim>\<open>/^[^\s@]+@[^\s@]+\.[^\s@]+$/\<close>\<close>

definition email_re :: rexp where
  "email_re =
     Seq (Plus (Cls not_space_or_at))
       (Seq (Chr CHR ''@'')
         (Seq (Plus (Cls not_space_or_at))
           (Seq (Chr CHR ''.'') (Plus (Cls not_space_or_at)))))"

text \<open>\<^verbatim>\<open>/^\+?\d[\d\s().-]{6,}$/\<close>\<close>

definition phone_re :: rexp where
  "phone_re = Seq (Opt (Chr CHR ''+'')) (Seq (Cls is_digit) (AtLeast 6 (Cls phone_tail)))"

text \<open>\<^verbatim>\<open>/^\d{6}$/\<close>\<close>

definition pin_re :: rexp where
  "pin_re = Times 6 (Cls is_digit)"

subsection \<open>What the patterns mean\<close>

text \<open>
  The language of a pattern, against which the matcher is verified below, and the three
  patterns in words: the shapes a trimmed email, phone number and PIN must have.
\<close>

definition conc :: "string set \<Rightarrow> string set \<Rightarrow> string set" where
  "conc A B = {u @ v | u v. u \<in> A \<and> v \<in> B}"

inductive_set star :: "string set \<Rightarrow> string set" for A :: "string set" where
  star_empty: "[] \<in> star A"
| star_more: "u \<in> A \<Longrightarrow> v \<in> star A \<Longrightarrow> u @ v \<in> star A"

fun lang :: "rexp \<Rightarrow> string set" where
  "lang Zero = {}"
| "lang One = {[]}"
| "lang (Cls p) = {[c] | c. p c}"
| "lang (Seq r s) = conc (lang r) (lang s)"
| "lang (Alt r s) = lang r \<union> lang s"
| "lang (Star r) = star (lang r)"

text \<open>A field is blank when it holds nothing but white space.\<close>

definition blank :: "string \<Rightarrow> bool" where
  "blank s = (\<forall>c \<in> set s. is_space c)"

text \<open>
  An email: a local part, \<open>@\<close>, a domain, a dot and a last part, each non-empty and free
  of white space and \<open>@\<close>.
\<close>

definition well_formed_email :: "string \<Rightarrow> bool" where
  "well_formed_email s =
     (\<exists>a b c. s = a @ ''@'' @ b @ ''.'' @ c \<and> a \<noteq> [] \<and> b \<noteq> [] \<and> c \<noteq> []
        \<and> (\<forall>x \<in> set (a @ b @ c). \<not> is_space x \<and> x \<noteq> CHR ''@''))"

text \<open>
  A phone number: an optional \<open>+\<close>, a digit, and at least six more characters, each a
  digit, white space, a parenthesis, a dot or a hyphen.
\<close>

definition well_formed_phone :: "string \<Rightarrow> bool" where
  "well_formed_phone s =
     (\<exists>d r. (s = d # r \<or> s = CHR ''+'' # d # r) \<and> is_digit d \<and> 6 \<le> length r
        \<and> (\<forall>x \<in> set r. is_digit x \<or> is_space x \<or> x \<in> set ''().-''))"

text \<open>A PIN: six digits.\<close>

definition six_digits :: "string \<Rightarrow> bool" where
  "six_digits s = (length s = 6 \<and> (\<forall>c \<in> set s. is_digit c))"

subsection \<open>JSON values, rows and requests to the store\<close>

datatype json =
    JNull
  | JBool bool
  | JNum int
  | JStr string
  | JArr "json list"
  | JObj "(string \<times> json) list"

text \<open>
  An object literal handed to \<^verbatim>\<open>insert\<close> or \<^verbatim>\<open>update\<close> is the list of its keys and
  values in the order written. A stored row maps column names to values.
\<close>

type_synonym payload = "(string \<times> json) list"

type_synonym row = "string \<rightharpoonup> json"

text \<open>
  The calls the client makes on the store:
  \<^verbatim>\<open>from(t).insert(p)\<close>, \<^verbatim>\<open>from(t).update(p).eq(col, v)\<close> and
  \<^verbatim>\<open>from(t).delete().eq(col, v)\<close>.
\<close>

datatype request =
    Insert string payload
  | Update string payload string json
  | Delete string string json

text \<open>
  What an awaited call resolves to, \<^verbatim>\<open>{ data, error }\<close>. The client library reports a
  failure in \<open>error\<close> and does not throw. No handler below reads it.
\<close>

datatype db_result = Done | Failed string

text \<open>
  The store at its interface (the store itself is not part of the repository): an update
  overwrites, in every row selected by \<^verbatim>\<open>eq(col, v)\<close>, exactly the columns named in the
  payload; an insert stores the payload over the column defaults the store supplies
  (here the generated \<open>id\<close> and \<open>created_at\<close>).
\<close>

definition store_update :: "payload \<Rightarrow> string \<Rightarrow> json \<Rightarrow> row list \<Rightarrow> row list" where
  "store_update p col v rows = map (\<lambda>r. if r col = Some v then r ++ map_of p else r) rows"

definition insert_row :: "payload \<Rightarrow> payload \<Rightarrow> row" where
  "insert_row defaults p = map_of defaults ++ map_of p"

subsection \<open>The data model\<close>

text \<open>\<^verbatim>\<open>const CONTACT_TYPES = ["Email", "Phone", "Text", "Link"] as const\<close>\<close>

datatype ContactType = Email | Phone | Text | Link

text \<open>The string each contact type is at run time, and the way back.\<close>

fun contact_type_name :: "ContactType \<Rightarrow> string" where
  "contact_type_name Email = ''Email''"
| "contact_type_name Phone = ''Phone''"
| "contact_type_name Text = ''Text''"
| "contact_type_name Link = ''Link''"

definition contact_type_of :: "string \<Rightarrow> ContactType option" where
  "contact_type_of s =
     (if s = ''Email'' then Some Email
      else if s = ''Phone'' then Some Phone
      else if s = ''Text'' then Some Text
      else if s = ''Link'' then Some Link
      else None)"

text \<open>\<^verbatim>\<open>type DBSquad\<close>: a row of the \<open>squads\<close> table as the client types it.\<close>

record DBSquad =
  id' :: string
  title :: string
  leader_name :: string
  date :: string
  time :: string
  location :: string
  discipline :: string
  capacity :: int
  message :: "string option"
  contact_type :: ContactType
  contact_value :: string
  leader_pin :: string
  created_at :: string
  created_by :: "string option"

text \<open>
  The \<open>useState\<close> variables the two forms have in common; \<open>PostForm\<close> adds the PIN,
  \<open>EditModal\<close> the squad it was opened on (its \<open>members\<close> state is \<open>squad.members\<close> and
  is never set).
\<close>

record FormState =
  title :: string
  leaderName :: string
  date :: string
  time :: string
  location :: string
  discipline :: string
  capacity :: int
  message :: string
  contactType :: ContactType
  contactValue :: string

record PostForm = FormState +
  leaderPin :: string

text \<open>\<^verbatim>\<open>type Squad\<close> and the two \<open>Omit\<close> types derived from it.\<close>

record Contact =
  type' :: ContactType
  "value" :: string

record Member =
  name :: string
  "note" :: "string option"
  joinedAt :: "int option"

text \<open>\<^verbatim>\<open>Omit<Squad, "id" | "members" | "createdAt">\<close>\<close>

record NewSquad =
  title :: string
  leaderName :: string
  date :: string
  time :: string
  location :: string
  discipline :: string
  capacity :: int
  message :: "string option"
  contact :: Contact
  leaderPin :: string

text \<open>\<^verbatim>\<open>Omit<Squad, "members">\<close>\<close>

record SquadBase = NewSquad +
  id' :: string
  createdAt :: "int option"

record Squad = SquadBase +
  members :: "Member list"

record EditModal = FormState +
  squad :: Squad

text \<open>
  \<^verbatim>\<open>function mapFromDB(row: DBSquad): Omit<Squad, "members">\<close>

  \<open>getTime s\<close> is \<^verbatim>\<open>new Date(s).getTime()\<close>.
\<close>

definition mapFromDB :: "(string \<Rightarrow> int option) \<Rightarrow> DBSquad \<Rightarrow> SquadBase" where
  "mapFromDB getTime row =
     \<lparr> title = DBSquad.title row,
       leaderName = leader_name row,
       date = DBSquad.date row,
       time = DBSquad.time row,
       location = DBSquad.location row,
       discipline = DBSquad.discipline row,
       capacity = DBSquad.capacity row,
       message = (case DBSquad.message row of Some m \<Rightarrow> Some m | None \<Rightarrow> None),
       contact = \<lparr> type' = contact_type row, value = contact_value row \<rparr>,
       leaderPin = leader_pin row,
       id' = DBSquad.id' row,
       createdAt = getTime (created_at row) \<rparr>"

text \<open>
  The cast \<^verbatim>\<open>rows as DBSquad[]\<close> of \<open>load\<close>: a stored row read at the types of
  \<open>DBSquad\<close>. A column that was never written reads as \<open>null\<close>.
\<close>

definition str_col :: "row \<Rightarrow> string \<Rightarrow> string option" where
  "str_col r k = (case r k of Some (JStr s) \<Rightarrow> Some s | _ \<Rightarrow> None)"

definition num_col :: "row \<Rightarrow> string \<Rightarrow> int option" where
  "num_col r k = (case r k of Some (JNum n) \<Rightarrow> Some n | _ \<Rightarrow> None)"

definition nullable_col :: "row \<Rightarrow> string \<Rightarrow> string option option" where
  "nullable_col r k =
     (case r k of
        Some (JStr s) \<Rightarrow> Some (Some s)
      | Some JNull \<Rightarrow> Some None
      | None \<Rightarrow> Some None
      | _ \<Rightarrow> None)"

definition as_DBSquad :: "row \<Rightarrow> DBSquad option" where
  "as_DBSquad r =
     do {
       i \<leftarrow> str_col r ''id'';
       t \<leftarrow> str_col r ''title'';
       ln \<leftarrow> str_col r ''leader_name'';
       d \<leftarrow> str_col r ''date'';
       tm \<leftarrow> str_col r ''time'';
       loc \<leftarrow> str_col r ''location'';
       disc \<leftarrow> str_col r ''discipline'';
       cap \<leftarrow> num_col r ''capacity'';
       msg \<leftarrow> nullable_col r ''message'';
       ctn \<leftarrow> str_col r ''contact_type'';
       ct \<leftarrow> contact_type_of ctn;
       cv \<leftarrow> str_col r ''contact_value'';
       pin \<leftarrow> str_col r ''leader_pin'';
       ca \<leftarrow> str_col r ''created_at'';
       cb \<leftarrow> nullable_col r ''created_by'';
       Some \<lparr> DBSquad.id' = i, DBSquad.title = t, leader_name = ln, DBSquad.date = d,
              DBSquad.time = tm, DBSquad.location = loc, DBSquad.discipline = disc,
              DBSquad.capacity = cap, DBSquad.message = msg, contact_type = ct,
              contact_value = cv, leader_pin = pin, created_at = ca, created_by = cb \<rparr>
     }"



subsection \<open>Ordering squads by their instant\<close>

text \<open>
  The expression \<^verbatim>\<open>new Date(`${s.date}T${s.time || "00:00"}`).getTime()\<close>, which
  \<open>byUpcoming\<close> evaluates on both arguments and the filter of \<open>visible\<close> binds to
  \<^verbatim>\<open>when\<close>. An empty \<open>time\<close> is falsy, so \<^verbatim>\<open>"00:00"\<close> takes its place.
\<close>

definition squad_instant :: "(string \<Rightarrow> int option) \<Rightarrow> Squad \<Rightarrow> int option" where
  "squad_instant getTime s =
     getTime (NewSquad.date s @ ''T'' @
       (if NewSquad.time s = [] then ''00:00'' else NewSquad.time s))"

text \<open>
  \<^verbatim>\<open>function byUpcoming(a, b)\<close>: the difference of the two instants, \<^verbatim>\<open>NaN\<close> when
  either is \<^verbatim>\<open>NaN\<close>. (Only the sign of the difference is used, and the sign of the
  rounded double difference is the sign of the exact one.)
\<close>

definition byUpcoming :: "(string \<Rightarrow> int option) \<Rightarrow> Squad \<Rightarrow> Squad \<Rightarrow> int option" where
  "byUpcoming getTime a b =
     (case (squad_instant getTime a, squad_instant getTime b) of
        (Some x, Some y) \<Rightarrow> Some (x - y)
      | _ \<Rightarrow> None)"

text \<open>
  \<^verbatim>\<open>Array.prototype.sort(comparefn)\<close> belongs to the engine, and \<open>visible\<close> below takes
  it as a parameter. The language fixes its result only for a comparator that is a
  consistent ordering of the elements (the stable sorted order); \<open>byUpcoming\<close> is not
  one when a date does not parse, and then engines differ from one another. Two
  properties every engine has, whatever the comparator: the result holds the elements of
  the array, each as often as the array does; and the elements are looked at through the
  comparator only, so renaming them in a way the comparator does not see renames the
  result.
\<close>

definition permuting :: "(('a \<Rightarrow> 'a \<Rightarrow> int option) \<Rightarrow> 'a list \<Rightarrow> 'a list) \<Rightarrow> bool" where
  "permuting arraySort = (\<forall>cmp xs. mset (arraySort cmp xs) = mset xs)"

definition comparator_driven :: "(('a \<Rightarrow> 'a \<Rightarrow> int option) \<Rightarrow> 'a list \<Rightarrow> 'a list) \<Rightarrow> bool" where
  "comparator_driven arraySort =
     (\<forall>cmp g xs. (\<forall>a b. cmp (g a) (g b) = cmp a b) \<longrightarrow> arraySort cmp (map g xs) = map g (arraySort cmp xs))"

text \<open>
  One such sort, used in the examples: a stable insertion sort in which a comparator
  result of \<^verbatim>\<open>NaN\<close> counts as \<open>0\<close>, as the language has it, and an element moves behind
  another only when the comparator puts it strictly after. For a consistent comparator
  it returns what every engine returns; for an inconsistent one it is one possible
  engine among others.
\<close>

definition comes_after :: "int option \<Rightarrow> bool" where
  "comes_after v = (case v of Some n \<Rightarrow> 0 < n | None \<Rightarrow> False)"

fun insert_by :: "('a \<Rightarrow> 'a \<Rightarrow> int option) \<Rightarrow> 'a \<Rightarrow> 'a list \<Rightarrow> 'a list" where
  "insert_by cmp x [] = [x]"
| "insert_by cmp x (y # ys) =
     (if comes_after (cmp x y) then y # insert_by cmp x ys else x # y # ys)"

fun insertion_sort :: "('a \<Rightarrow> 'a \<Rightarrow> int option) \<Rightarrow> 'a list \<Rightarrow> 'a list" where
  "insertion_sort cmp [] = []"
| "insertion_sort cmp (x # xs) = insert_by cmp x (insertion_sort cmp xs)"

subsection \<open>The state of \<open>MainApp\<close> and its handlers\<close>

datatype Tab = browse | post

datatype toast_kind = info | success | error

record Toast =
  kind :: toast_kind
  "text" :: string

record Filters =
  query :: string
  discipline :: string
  onlyUpcoming :: bool

text \<open>
  The \<open>useState\<close> variables of \<open>MainApp\<close>, and the calls made on the store so far, in
  the order they were issued.
\<close>

record App =
  squads :: "Squad list"
  tab :: Tab
  filters :: Filters
  joinTarget :: "Squad option"
  editTarget :: "Squad option"
  toast :: "Toast option"
  requests :: "request list"

text \<open>
  \<^verbatim>\<open>async function addSquad(data)\<close>. \<open>user\<close> is the id of
  \<^verbatim>\<open>(await supabase.auth.getUser()).data.user\<close>, if there is a user; \<open>res\<close> is what the
  awaited insert resolves to.
\<close>

definition addSquad_payload :: "string option \<Rightarrow> NewSquad \<Rightarrow> payload" where
  "addSquad_payload user data =
     [(''title'', JStr (NewSquad.title data)),
      (''leader_name'', JStr (NewSquad.leaderName data)),
      (''date'', JStr (NewSquad.date data)),
      (''time'', JStr (NewSquad.time data)),
      (''location'', JStr (NewSquad.location data)),
      (''discipline'', JStr (NewSquad.discipline data)),
      (''capacity'', JNum (NewSquad.capacity data)),
      (''message'', case NewSquad.message data of Some m \<Rightarrow> JStr m | None \<Rightarrow> JNull),
      (''contact_type'', JStr (contact_type_name (type' (contact data)))),
      (''contact_value'', JStr (value (contact data))),
      (''leader_pin'', JStr (NewSquad.leaderPin data)),
      (''created_by'', case user of Some u \<Rightarrow> JStr u | None \<Rightarrow> JNull)]"

definition addSquad :: "string option \<Rightarrow> NewSquad \<Rightarrow> db_result \<Rightarrow> App \<Rightarrow> App" where
  "addSquad user data res st =
     st\<lparr> requests := requests st @ [Insert ''squads'' (addSquad_payload user data)],
         tab := browse,
         toast := Some \<lparr> kind = success, text = ''Squad posted'' \<rparr> \<rparr>"

text \<open>\<^verbatim>\<open>async function deleteSquad(id, pin)\<close>; \<open>res\<close> is what the awaited delete resolves to.\<close>

definition deleteSquad :: "string \<Rightarrow> string \<Rightarrow> db_result \<Rightarrow> App \<Rightarrow> App" where
  "deleteSquad i pin res st =
     (case find (\<lambda>x. SquadBase.id' x = i) (squads st) of
        None \<Rightarrow> st
      | Some s \<Rightarrow>
          if pin \<noteq> NewSquad.leaderPin s
          then st\<lparr> toast := Some \<lparr> kind = error, text = ''PIN is incorrect'' \<rparr> \<rparr>
          else st\<lparr> requests := requests st @ [Delete ''squads'' ''id'' (JStr i)],
                   toast := Some \<lparr> kind = success, text = ''Squad deleted'' \<rparr> \<rparr>)"

text \<open>\<^verbatim>\<open>function startEdit(id, pin)\<close>\<close>

definition startEdit :: "string \<Rightarrow> string \<Rightarrow> App \<Rightarrow> App" where
  "startEdit i pin st =
     (case find (\<lambda>x. SquadBase.id' x = i) (squads st) of
        None \<Rightarrow> st\<lparr> toast := Some \<lparr> kind = error, text = ''Not found'' \<rparr> \<rparr>
      | Some s \<Rightarrow>
          if pin \<noteq> NewSquad.leaderPin s
          then st\<lparr> toast := Some \<lparr> kind = error, text = ''PIN is incorrect'' \<rparr> \<rparr>
          else st\<lparr> editTarget := Some s \<rparr>)"

text \<open>\<^verbatim>\<open>async function saveEdit(updated)\<close>; \<open>res\<close> is what the awaited update resolves to.\<close>

definition saveEdit_payload :: "Squad \<Rightarrow> payload" where
  "saveEdit_payload updated =
     [(''title'', JStr (NewSquad.title updated)),
      (''leader_name'', JStr (NewSquad.leaderName updated)),
      (''date'', JStr (NewSquad.date updated)),
      (''time'', JStr (NewSquad.time updated)),
      (''location'', JStr (NewSquad.location updated)),
      (''discipline'', JStr (NewSquad.discipline updated)),
      (''capacity'', JNum (NewSquad.capacity updated)),
      (''message'', case NewSquad.message updated of Some m \<Rightarrow> JStr m | None \<Rightarrow> JNull),
      (''contact_type'', JStr (contact_type_name (type' (contact updated)))),
      (''contact_value'', JStr (value (contact updated))),
      (''leader_pin'', JStr (NewSquad.leaderPin updated))]"

definition saveEdit :: "Squad \<Rightarrow> db_result \<Rightarrow> App \<Rightarrow> App" where
  "saveEdit updated res st =
     st\<lparr> requests := requests st @
           [Update ''squads'' (saveEdit_payload updated) ''id'' (JStr (SquadBase.id' updated))],
         editTarget := None,
         toast := Some \<lparr> kind = success, text = ''Squad updated'' \<rparr> \<rparr>"

subsection \<open>The visible list\<close>

text \<open>
  \<^verbatim>\<open>String.prototype.toLowerCase\<close> on code units below U+0100: the letters A to Z and
  U+00C0 to U+00DE (the multiplication sign U+00D7 apart) move up by 32.
\<close>

definition lower_char :: "char \<Rightarrow> char" where
  "lower_char c =
     (let n = (of_char c :: nat)
      in if (65 \<le> n \<and> n \<le> 90) \<or> (192 \<le> n \<and> n \<le> 222 \<and> n \<noteq> 215)
         then char_of (n + 32) else c)"

definition toLowerCase :: "string \<Rightarrow> string" where
  "toLowerCase s = map lower_char s"

text \<open>\<^verbatim>\<open>hay.includes(q)\<close>: \<open>q\<close> occurs in \<open>hay\<close> as a contiguous run.\<close>

fun includes' :: "string \<Rightarrow> string \<Rightarrow> bool" where
  "includes' [] q = (q = [])"
| "includes' (h # hs) q = (take (length q) (h # hs) = q \<or> includes' hs q)"

text \<open>
  The callback given to \<^verbatim>\<open>squads.filter\<close> in \<open>visible\<close>; \<open>now\<close> is \<^verbatim>\<open>Date.now()\<close>.
  A comparison with \<^verbatim>\<open>NaN\<close> is false.
\<close>

definition older_than_a_day :: "(string \<Rightarrow> int option) \<Rightarrow> int \<Rightarrow> Squad \<Rightarrow> bool" where
  "older_than_a_day getTime now s =
     (case squad_instant getTime s of Some w \<Rightarrow> w < now - 86400000 | None \<Rightarrow> False)"

definition haystack :: "Squad \<Rightarrow> string" where
  "haystack s =
     toLowerCase (NewSquad.title s @ '' '' @ NewSquad.location s @ '' '' @
       (case NewSquad.message s of Some m \<Rightarrow> m | None \<Rightarrow> []) @ '' '' @ NewSquad.leaderName s)"

definition keeps :: "(string \<Rightarrow> int option) \<Rightarrow> int \<Rightarrow> Filters \<Rightarrow> Squad \<Rightarrow> bool" where
  "keeps getTime now f s =
     (if onlyUpcoming f \<and> older_than_a_day getTime now s then False
      else if Filters.discipline f \<noteq> ''All'' \<and> NewSquad.discipline s \<noteq> Filters.discipline f
      then False
      else if query f \<noteq> [] \<and> \<not> includes' (haystack s) (toLowerCase (query f)) then False
      else True)"

text \<open>
  \<^verbatim>\<open>const visible = useMemo(...)\<close>: the filtered list, sorted by the engine's sort \<open>arraySort\<close>
  with the comparator \<open>byUpcoming\<close>.
\<close>

definition visible ::
  "((Squad \<Rightarrow> Squad \<Rightarrow> int option) \<Rightarrow> Squad list \<Rightarrow> Squad list) \<Rightarrow> (string \<Rightarrow> int option) \<Rightarrow> int
     \<Rightarrow> Squad list \<Rightarrow> Filters \<Rightarrow> Squad list" where
  "visible arraySort getTime now sqs f = arraySort (byUpcoming getTime) (filter (keeps getTime now f) sqs)"

text \<open>
  The second and third condition of that callback on their own, and a squad with its
  \<open>time\<close> set to midnight; both serve to state properties of \<open>visible\<close>.
\<close>

definition passes_other_filters :: "Filters \<Rightarrow> Squad \<Rightarrow> bool" where
  "passes_other_filters f s =
     ((Filters.discipline f = ''All'' \<or> NewSquad.discipline s = Filters.discipline f)
      \<and> (query f = [] \<or> includes' (haystack s) (toLowerCase (query f))))"

definition at_midnight :: "Squad \<Rightarrow> Squad" where
  "at_midnight s = s\<lparr> time := ''00:00'' \<rparr>"

definition empty_time_to_midnight :: "Squad \<Rightarrow> Squad" where
  "empty_time_to_midnight s = (if NewSquad.time s = [] then at_midnight s else s)"


subsection \<open>The post form\<close>

text \<open>
  \<^verbatim>\<open>function validate()\<close> of \<open>PostForm\<close>. The object \<open>e\<close> is the list of its keys and
  values; an assignment \<^verbatim>\<open>e.k = v\<close> is \<open>AList.update\<close>, which overwrites a key already
  there. \<open>PostForm_errors\<close> is the object given to \<open>setErrors\<close>, \<open>PostForm_validate\<close> the
  value returned.
\<close>

definition PostForm_errors :: "PostForm \<Rightarrow> (string \<times> string) list" where
  "PostForm_errors p =
     (let e = [];
          e = (if trim (FormState.title p) = [] then AList.update ''title'' ''Title is required'' e else e);
          e = (if trim (FormState.leaderName p) = []
               then AList.update ''leaderName'' ''Leader name is required'' e else e);
          e = (if FormState.date p = [] then AList.update ''date'' ''Date is required'' e else e);
          e = (if FormState.time p = [] then AList.update ''time'' ''Time is required'' e else e);
          e = (if trim (FormState.location p) = []
               then AList.update ''location'' ''Location is required'' e else e);
          e = (if FormState.capacity p = 0 \<or> FormState.capacity p < 1
               then AList.update ''capacity'' ''Capacity must be at least 1'' e else e);
          e = (if trim (contactValue p) = []
               then AList.update ''contact'' ''Contact detail is required'' e else e);
          e = (if contactType p = Email \<and> \<not> test email_re (trim (contactValue p))
               then AList.update ''contact'' ''Enter a valid email'' e else e);
          e = (if (contactType p = Phone \<or> contactType p = Text)
                  \<and> \<not> test phone_re (trim (contactValue p))
               then AList.update ''contact'' ''Enter a valid phone number'' e else e);
          e = (if trim (PostForm.leaderPin p) = []
               then AList.update ''leaderPin'' ''PIN is required'' e
               else if \<not> test pin_re (trim (PostForm.leaderPin p))
               then AList.update ''leaderPin'' ''PIN must be 6 digits'' e
               else e)
      in e)"

definition PostForm_validate :: "PostForm \<Rightarrow> bool" where
  "PostForm_validate p = (length (map fst (PostForm_errors p)) = 0)"

text \<open>
  The rules for a draft in words, to compare \<open>validate\<close> with: the required field
  keyed \<open>k\<close> is empty or malformed. Title, leader name, location and contact value must
  not be blank; date and time must not be empty; the capacity must be at least 1; an
  Email contact must be a well-formed email and a Phone or Text contact a well-formed
  phone number, both after trimming; the trimmed PIN must be six digits.
\<close>

definition field_problem :: "PostForm \<Rightarrow> string \<Rightarrow> bool" where
  "field_problem p k =
     (k = ''title'' \<and> blank (FormState.title p)
      \<or> k = ''leaderName'' \<and> blank (FormState.leaderName p)
      \<or> k = ''date'' \<and> FormState.date p = []
      \<or> k = ''time'' \<and> FormState.time p = []
      \<or> k = ''location'' \<and> blank (FormState.location p)
      \<or> k = ''capacity'' \<and> FormState.capacity p < 1
      \<or> k = ''contact'' \<and>
           (blank (contactValue p)
            \<or> contactType p = Email \<and> \<not> well_formed_email (trim (contactValue p))
            \<or> (contactType p = Phone \<or> contactType p = Text)
                \<and> \<not> well_formed_phone (trim (contactValue p)))
      \<or> k = ''leaderPin'' \<and> \<not> six_digits (trim (PostForm.leaderPin p)))"

text \<open>The initial values of the \<open>useState\<close> variables, to which a submission resets them.\<close>

definition PostForm_initial :: PostForm where
  "PostForm_initial =
     \<lparr> FormState.title = [], FormState.leaderName = [], FormState.date = [],
       FormState.time = [], FormState.location = [],
       FormState.discipline = ''Sporting Clays'', FormState.capacity = 4,
       FormState.message = [], contactType = Email, contactValue = [],
       PostForm.leaderPin = [] \<rparr>"

text \<open>
  \<^verbatim>\<open>function submit(e)\<close> of \<open>PostForm\<close>: the argument of \<open>onSubmit\<close>, if it is called,
  and the form afterwards.
\<close>

definition PostForm_submit :: "PostForm \<Rightarrow> NewSquad option \<times> PostForm" where
  "PostForm_submit p =
     (if \<not> PostForm_validate p then (None, p)
      else
        (Some \<lparr> title = trim (FormState.title p),
                leaderName = trim (FormState.leaderName p),
                date = FormState.date p,
                time = FormState.time p,
                location = trim (FormState.location p),
                discipline = FormState.discipline p,
                capacity = FormState.capacity p,
                message = Some (trim (FormState.message p)),
                contact =
                  \<lparr> type' = contactType p,
                    value =
                      (if contactType p = Phone \<or> contactType p = Text
                       then sanitizePhone (contactValue p)
                       else trim (contactValue p)) \<rparr>,
                leaderPin = trim (PostForm.leaderPin p) \<rparr>,
         PostForm_initial))"

subsection \<open>The edit modal\<close>

text \<open>\<^verbatim>\<open>function validate()\<close> of \<open>EditModal\<close>: the checks of the post form without the PIN.\<close>

definition EditModal_errors :: "EditModal \<Rightarrow> (string \<times> string) list" where
  "EditModal_errors p =
     (let e = [];
          e = (if trim (FormState.title p) = [] then AList.update ''title'' ''Title is required'' e else e);
          e = (if trim (FormState.leaderName p) = []
               then AList.update ''leaderName'' ''Leader name is required'' e else e);
          e = (if FormState.date p = [] then AList.update ''date'' ''Date is required'' e else e);
          e = (if FormState.time p = [] then AList.update ''time'' ''Time is required'' e else e);
          e = (if trim (FormState.location p) = []
               then AList.update ''location'' ''Location is required'' e else e);
          e = (if FormState.capacity p = 0 \<or> FormState.capacity p < 1
               then AList.update ''capacity'' ''Capacity must be at least 1'' e else e);
          e = (if trim (contactValue p) = []
               then AList.update ''contact'' ''Contact detail is required'' e else e);
          e = (if contactType p = Email \<and> \<not> test email_re (trim (contactValue p))
               then AList.update ''contact'' ''Enter a valid email'' e else e);
          e = (if (contactType p = Phone \<or> contactType p = Text)
                  \<and> \<not> test phone_re (trim (contactValue p))
               then AList.update ''contact'' ''Enter a valid phone number'' e else e)
      in e)"

definition EditModal_validate :: "EditModal \<Rightarrow> bool" where
  "EditModal_validate p = (length (map fst (EditModal_errors p)) = 0)"

text \<open>
  \<^verbatim>\<open>function submit(e)\<close> of \<open>EditModal\<close>: the argument of \<open>onSave\<close>, if it is called.
  \<^verbatim>\<open>message.trim() || undefined\<close> is \<open>undefined\<close> for an empty trimmed message.
\<close>

definition EditModal_submit :: "EditModal \<Rightarrow> Squad option" where
  "EditModal_submit p =
     (if \<not> EditModal_validate p then None
      else
        Some \<lparr> title = trim (FormState.title p),
               leaderName = trim (FormState.leaderName p),
               date = FormState.date p,
               time = FormState.time p,
               location = trim (FormState.location p),
               discipline = FormState.discipline p,
               capacity = FormState.capacity p,
               message =
                 (if trim (FormState.message p) = [] then None
                  else Some (trim (FormState.message p))),
               contact =
                 \<lparr> type' = contactType p,
                   value =
                     (if contactType p = Phone \<or> contactType p = Text
                      then sanitizePhone (contactValue p)
                      else trim (contactValue p)) \<rparr>,
               leaderPin = NewSquad.leaderPin (squad p),
               id' = SquadBase.id' (squad p),
               createdAt = createdAt (squad p),
               members = members (squad p) \<rparr>)"

subsection \<open>The squad card\<close>

text \<open>
  What \<open>SquadCard\<close> derives from its squad: the three constants \<open>used\<close>, \<open>left\<close> and
  \<open>full\<close>, and the \<open>disabled\<close> attribute and the label of the join button.
\<close>

record SquadCardView =
  used :: int
  left :: int
  full :: bool
  join_disabled :: bool
  join_label :: string

definition SquadCard :: "Squad \<Rightarrow> SquadCardView" where
  "SquadCard sq =
     (let used = 1 + int (length (members sq));
          left = max 0 (NewSquad.capacity sq - used);
          full = (left = 0)
      in \<lparr> used = used, left = left, full = full,
           join_disabled = full,
           join_label = (if full then ''Squad is full'' else ''Join squad'') \<rparr>)"

subsection \<open>The email relay\<close>

text \<open>
  The request as the handler reads it: \<open>req.method\<close> and \<open>req.body\<close> (which may be
  \<open>undefined\<close>). The response is the status given to \<^verbatim>\<open>res.status\<close> and the value given to
  \<^verbatim>\<open>.json\<close>.
\<close>

record Req =
  "method" :: string
  body :: "json option"

record Res =
  status :: nat
  sent :: json

text \<open>The arguments of the call to \<open>fetch\<close>; the body is the value given to \<^verbatim>\<open>JSON.stringify\<close>.\<close>

record FetchCall =
  url :: string
  init_method :: string
  init_headers :: "(string \<times> string) list"
  init_body :: json

text \<open>Truthiness of a value that may be \<open>undefined\<close>.\<close>

fun truthy :: "json option \<Rightarrow> bool" where
  "truthy None = False"
| "truthy (Some JNull) = False"
| "truthy (Some (JBool b)) = b"
| "truthy (Some (JNum n)) = (n \<noteq> 0)"
| "truthy (Some (JStr s)) = (s \<noteq> [])"
| "truthy (Some (JArr xs)) = True"
| "truthy (Some (JObj kvs)) = True"

text \<open>A property of a value, as destructuring reads it (the keys of an object are distinct).\<close>

fun property :: "json \<Rightarrow> string \<Rightarrow> json option" where
  "property (JObj kvs) k = map_of kvs k"
| "property v k = None"

text \<open>\<^verbatim>\<open>a || b\<close>\<close>

definition or_else :: "json option \<Rightarrow> json \<Rightarrow> json" where
  "or_else a b = (case a of Some v \<Rightarrow> (if truthy a then v else b) | None \<Rightarrow> b)"

text \<open>
  \<^verbatim>\<open>const { email, subject, message } = req.body || {}\<close>: one of the three
  properties.
\<close>

definition body_field :: "Req \<Rightarrow> string \<Rightarrow> json option" where
  "body_field req k = property (or_else (body req) (JObj [])) k"

text \<open>The call to \<open>fetch\<close> for a key, a recipient, a subject and a message.\<close>

definition resend_call :: "string \<Rightarrow> json \<Rightarrow> json option \<Rightarrow> json option \<Rightarrow> FetchCall" where
  "resend_call key to subject msg =
     \<lparr> url = ''https://api.resend.com/emails'',
       init_method = ''POST'',
       init_headers =
         [(''Content-Type'', ''application/json''), (''Authorization'', ''Bearer '' @ key)],
       init_body =
         JObj [(''from'', JStr ''Squad Up <onboarding@resend.dev>''),
               (''to'', to),
               (''subject'', or_else subject (JStr ''Squad Up notification'')),
               (''text'', or_else msg (JStr []))] \<rparr>"

text \<open>
  \<^verbatim>\<open>export default async function handler(req, res)\<close>.
  An \<open>email\<close> that is \<open>undefined\<close> and one that is present but falsy both fail
  \<^verbatim>\<open>!email\<close>; so do an undefined and an empty key. \<open>apiKey\<close> is
  \<^verbatim>\<open>process.env.RESEND_API_KEY\<close>. \<open>relay c\<close> is the outcome of
  \<^verbatim>\<open>fetch\<close> with the arguments \<open>c\<close> followed by \<^verbatim>\<open>response.json()\<close>: the parsed body, or
  \<open>None\<close> when either of them throws.
\<close>

definition handler :: "(FetchCall \<Rightarrow> json option) \<Rightarrow> string option \<Rightarrow> Req \<Rightarrow> Res" where
  "handler relay apiKey req =
     (if method req \<noteq> ''POST''
      then \<lparr> status = 405, sent = JObj [(''message'', JStr ''Method not allowed'')] \<rparr>
      else
        let email = body_field req ''email'';
            subject = body_field req ''subject'';
            message = body_field req ''message''
        in
          (case email of
             None \<Rightarrow> \<lparr> status = 400, sent = JObj [(''message'', JStr ''Missing email'')] \<rparr>
           | Some to \<Rightarrow>
               if \<not> truthy email
               then \<lparr> status = 400, sent = JObj [(''message'', JStr ''Missing email'')] \<rparr>
               else
                 (case apiKey of
                    None \<Rightarrow>
                      \<lparr> status = 500,
                        sent = JObj [(''message'', JStr ''RESEND_API_KEY is not configured'')] \<rparr>
                  | Some key \<Rightarrow>
                      if key = []
                      then \<lparr> status = 500,
                             sent = JObj [(''message'', JStr ''RESEND_API_KEY is not configured'')] \<rparr>
                      else
                        (case relay (resend_call key to subject message) of
                           Some data \<Rightarrow> \<lparr> status = 200, sent = data \<rparr>
                         | None \<Rightarrow>
                             \<lparr> status = 500,
                               sent = JObj [(''message'', JStr ''Failed to send email'')] \<rparr>))))"


subsection \<open>Sample data\<close>

text \<open>A squad with capacity 4, three joiners and the PIN 111111, and an application state holding it.\<close>

definition bob :: Member where
  "bob = \<lparr> name = ''Bob'', note = None, joinedAt = Some 0 \<rparr>"

definition squad_A :: Squad where
  "squad_A =
     \<lparr> title = ''Saturday clays'', leaderName = ''Ann'', date = ''2024-01-01'',
       time = ''09:00'', location = ''Gun club'', discipline = ''Trap'', capacity = 4,
       message = None, contact = \<lparr> type' = Email, value = ''ann@example.com'' \<rparr>,
       leaderPin = ''111111'', id' = ''a'', createdAt = Some 0, members = [bob, bob, bob] \<rparr>"

definition app_A :: App where
  "app_A =
     \<lparr> squads = [squad_A], tab = browse,
       filters = \<lparr> query = [], discipline = ''All'', onlyUpcoming = True \<rparr>,
       joinTarget = None, editTarget = None, toast = None, requests = [] \<rparr>"

text \<open>The stored row of that squad.\<close>

definition row_A :: row where
  "row_A =
     map_of
       [(''id'', JStr ''a''), (''title'', JStr ''Saturday clays''), (''leader_name'', JStr ''Ann''),
        (''date'', JStr ''2024-01-01''), (''time'', JStr ''09:00''),
        (''location'', JStr ''Gun club''), (''discipline'', JStr ''Trap''),
        (''capacity'', JNum 4), (''message'', JNull), (''contact_type'', JStr ''Email''),
        (''contact_value'', JStr ''ann@example.com''), (''leader_pin'', JStr ''111111''),
        (''created_at'', JStr ''2023-12-01T10:00:00+00:00''), (''created_by'', JNull)]"

text \<open>A filled post form with a phone contact, and the edit modal opened on the sample squad.\<close>

definition form_phone :: PostForm where
  "form_phone =
     \<lparr> FormState.title = ''Saturday clays'', FormState.leaderName = ''Ann'',
       FormState.date = ''2024-01-01'', FormState.time = ''09:00'',
       FormState.location = ''Gun club'', FormState.discipline = ''Trap'',
       FormState.capacity = 4, FormState.message = [], contactType = Phone,
       contactValue = ''+1 (555) 123-4567'', PostForm.leaderPin = ''111111'' \<rparr>"

definition modal_text :: EditModal where
  "modal_text =
     \<lparr> FormState.title = ''Saturday clays'', FormState.leaderName = ''Ann'',
       FormState.date = ''2024-01-01'', FormState.time = ''09:00'',
       FormState.location = ''Gun club'', FormState.discipline = ''Trap'',
       FormState.capacity = 4, FormState.message = [], contactType = Text,
       contactValue = ''555 123-4567'', squad = squad_A \<rparr>"

text \<open>A request to the relay, and a provider that answers every call with the same body.\<close>

definition req_A :: Req where
  "req_A = \<lparr> method = ''POST'', body = Some (JObj [(''email'', JStr ''bob@example.com'')]) \<rparr>"

definition relay_ok :: "FetchCall \<Rightarrow> json option" where
  "relay_ok c = Some (JObj [(''id'', JStr ''e1'')])"

text \<open>The data of a new squad without a message.\<close>

definition new_A :: NewSquad where
  "new_A =
     \<lparr> title = ''Saturday clays'', leaderName = ''Ann'', date = ''2024-01-01'',
       time = ''09:00'', location = ''Gun club'', discipline = ''Trap'', capacity = 4,
       message = None, contact = \<lparr> type' = Email, value = ''ann@example.com'' \<rparr>,
       leaderPin = ''111111'' \<rparr>"

text \<open>
  A runtime whose date parser knows the instant of the sample squad (09:00 on 1 January
  2024, UTC) and of its date at midnight; and the sample squad without a time.
\<close>

definition clock_A :: "string \<Rightarrow> int option" where
  "clock_A s =
     (if s = ''2024-01-01T09:00'' then Some 1704099600000
      else if s = ''2024-01-01T00:00'' then Some 1704067200000
      else None)"

definition squad_untimed :: Squad where
  "squad_untimed = squad_A\<lparr> time := [] \<rparr>"


section \<open>Properties\<close>

subsection \<open>Looking a squad up by its id\<close>

lemma find_present:
  "i \<in> f ` set xs \<Longrightarrow> \<exists>s. find (\<lambda>x. f x = i) xs = Some s \<and> s \<in> set xs \<and> f s = i"
  by (induction xs) auto

lemma find_absent: "i \<notin> f ` set xs \<Longrightarrow> find (\<lambda>x. f x = i) xs = None"
  by (induction xs) auto

subsection \<open>Evaluating the patterns and the sample forms\<close>

lemmas re_defs = email_re_def phone_re_def pin_re_def Opt_def Plus_def AtLeast_def Chr_def
  not_space_or_at_def phone_tail_def is_digit_def is_space_def eval_nat_numeral

lemma form_phone_valid: "PostForm_validate form_phone"
  by (simp add: PostForm_validate_def PostForm_errors_def form_phone_def trim_def re_defs)

lemma modal_text_valid: "EditModal_validate modal_text"
  by (simp add: EditModal_validate_def EditModal_errors_def modal_text_def trim_def re_defs)

subsection \<open>What the forms hand on, and what the payloads carry\<close>

lemma sanitize_keeps: "sanitizePhone p = filter (\<lambda>c. is_digit c \<or> c = CHR ''+'') p"
  unfolding sanitizePhone_def not_plus_or_digit_def by (rule filter_cong) auto

lemma sanitize_chars: "c \<in> set (sanitizePhone p) \<Longrightarrow> is_digit c \<or> c = CHR ''+''"
  by (auto simp add: sanitize_keeps)

lemma sanitize_idem: "sanitizePhone (sanitizePhone p) = sanitizePhone p"
  by (simp add: sanitizePhone_def)

lemma PostForm_submit_value:
  "fst (PostForm_submit f) = Some sq \<Longrightarrow>
     type' (contact sq) = contactType f \<and>
     value (contact sq) =
       (if contactType f = Phone \<or> contactType f = Text
        then sanitizePhone (contactValue f) else trim (contactValue f))"
  by (auto simp add: PostForm_submit_def split: if_splits)

lemma EditModal_submit_value:
  "EditModal_submit m = Some sq \<Longrightarrow>
     type' (contact sq) = contactType m \<and>
     value (contact sq) =
       (if contactType m = Phone \<or> contactType m = Text
        then sanitizePhone (contactValue m) else trim (contactValue m))"
  by (auto simp add: EditModal_submit_def split: if_splits)

lemma addSquad_contact_value:
  "map_of (addSquad_payload user sq) ''contact_value'' = Some (JStr (value (contact sq)))"
  by (simp add: addSquad_payload_def)

lemma saveEdit_contact_value:
  "map_of (saveEdit_payload sq) ''contact_value'' = Some (JStr (value (contact sq)))"
  by (simp add: saveEdit_payload_def)


subsection \<open>The matcher decides the language of a pattern\<close>


lemma nullable_lang: "nullable r = ([] \<in> lang r)"
  by (induction r) (auto simp add: conc_def intro: star.star_empty)

lemma cons_in_conc:
  "(c # w \<in> conc A B)
     = (([] \<in> A \<and> c # w \<in> B) \<or> (\<exists>u v. w = u @ v \<and> c # u \<in> A \<and> v \<in> B))"
  by (auto simp add: conc_def Cons_eq_append_conv)

lemma star_cons_split:
  "x \<in> star A \<Longrightarrow> x = c # w \<Longrightarrow> \<exists>u v. w = u @ v \<and> c # u \<in> A \<and> v \<in> star A"
proof (induction arbitrary: w rule: star.induct)
  case star_empty
  then show ?case by simp
next
  case (star_more u v)
  show ?case
  proof (cases u)
    case Nil
    with star_more show ?thesis by simp
  next
    case (Cons a u')
    with star_more.prems have "a = c" "w = u' @ v" by simp_all
    with Cons star_more.hyps show ?thesis by blast
  qed
qed

lemma cons_in_star:
  "(c # w \<in> star A) = (\<exists>u v. w = u @ v \<and> c # u \<in> A \<and> v \<in> star A)"
proof
  assume "c # w \<in> star A"
  then show "\<exists>u v. w = u @ v \<and> c # u \<in> A \<and> v \<in> star A"
    by (rule star_cons_split) simp
next
  assume "\<exists>u v. w = u @ v \<and> c # u \<in> A \<and> v \<in> star A"
  then obtain u v where "w = u @ v" "c # u \<in> A" "v \<in> star A" by blast
  then show "c # w \<in> star A"
    using star.star_more [of "c # u" A v] by simp
qed

lemma deriv_lang: "(w \<in> lang (deriv c r)) = (c # w \<in> lang r)"
proof (induction r arbitrary: w)
  case (Seq r s)
  then show ?case
    by (simp add: cons_in_conc nullable_lang) (auto simp add: conc_def)
next
  case (Star r)
  then show ?case
    by (simp add: cons_in_star) (auto simp add: conc_def)
qed auto

lemma test_lang: "test r s = (s \<in> lang r)"
  by (induction s arbitrary: r) (simp_all add: nullable_lang deriv_lang)


subsection \<open>The three patterns in words\<close>


lemma star_cls: "star {[c] | c. p c} = {s. \<forall>c \<in> set s. p c}"
proof (rule set_eqI, rule iffI)
  fix s assume "s \<in> star {[c] | c. p c}"
  then show "s \<in> {s. \<forall>c \<in> set s. p c}"
    by (induction rule: star.induct) auto
next
  fix s assume "s \<in> {s. \<forall>c \<in> set s. p c}"
  then have "\<forall>c \<in> set s. p c" by simp
  then show "s \<in> star {[c] | c. p c}"
  proof (induction s)
    case Nil
    show ?case by (rule star.star_empty)
  next
    case (Cons a s)
    then have "[a] \<in> {[c] | c. p c}" "s \<in> star {[c] | c. p c}" by simp_all
    then have "[a] @ s \<in> star {[c] | c. p c}" by (rule star.star_more)
    then show ?case by simp
  qed
qed

lemma conc_cls: "conc {[c] | c. p c} B = {c # w | c w. p c \<and> w \<in> B}"
proof (rule set_eqI, rule iffI)
  fix s assume "s \<in> conc {[c] | c. p c} B"
  then show "s \<in> {c # w | c w. p c \<and> w \<in> B}" by (auto simp add: conc_def)
next
  fix s assume "s \<in> {c # w | c w. p c \<and> w \<in> B}"
  then obtain c w where "s = [c] @ w" "p c" "w \<in> B" by auto
  then show "s \<in> conc {[c] | c. p c} B" unfolding conc_def by blast
qed

lemma conc_chr: "conc A (conc (lang (Chr x)) B) = {a @ x # b | a b. a \<in> A \<and> b \<in> B}"
proof -
  have "conc (lang (Chr x)) B = {x # b | b. b \<in> B}"
    using conc_cls [of "\<lambda>c. c = x" B] by (simp add: Chr_def)
  then show ?thesis by (auto simp add: conc_def)
qed

lemma conc_opt_chr: "conc (lang (Opt (Chr x))) B = B \<union> {x # b | b. b \<in> B}"
proof (rule set_eqI, rule iffI)
  fix s assume "s \<in> conc (lang (Opt (Chr x))) B"
  then show "s \<in> B \<union> {x # b | b. b \<in> B}"
    by (auto simp add: conc_def Opt_def Chr_def)
next
  fix s assume "s \<in> B \<union> {x # b | b. b \<in> B}"
  then consider "s \<in> B" | b where "s = x # b" "b \<in> B" by auto
  then show "s \<in> conc (lang (Opt (Chr x))) B"
  proof cases
    case 1
    then have "[] @ s \<in> conc (lang (Opt (Chr x))) B"
      unfolding conc_def Opt_def by (simp del: append_Nil) blast
    then show ?thesis by simp
  next
    case 2
    then have "[x] @ b \<in> conc (lang (Opt (Chr x))) B"
      unfolding conc_def Opt_def Chr_def by (simp del: append_Cons append_Nil) blast
    with 2 show ?thesis by simp
  qed
qed

lemma lang_plus_cls: "lang (Plus (Cls p)) = {s. s \<noteq> [] \<and> (\<forall>c \<in> set s. p c)}"
proof -
  have "lang (Plus (Cls p)) = {c # w | c w. p c \<and> (\<forall>x \<in> set w. p x)}"
    by (simp add: Plus_def star_cls conc_cls)
  also have "\<dots> = {s. s \<noteq> [] \<and> (\<forall>c \<in> set s. p c)}"
  proof (rule set_eqI)
    fix s show "(s \<in> {c # w | c w. p c \<and> (\<forall>x \<in> set w. p x)})
                 = (s \<in> {s. s \<noteq> [] \<and> (\<forall>c \<in> set s. p c)})"
      by (cases s) auto
  qed
  finally show ?thesis .
qed

lemma lang_times_cls: "lang (Times n (Cls p)) = {s. length s = n \<and> (\<forall>c \<in> set s. p c)}"
proof (induction n)
  case 0
  show ?case by auto
next
  case (Suc n)
  have "lang (Times (Suc n) (Cls p)) = {c # w | c w. p c \<and> length w = n \<and> (\<forall>x \<in> set w. p x)}"
    by (simp add: Suc.IH conc_cls)
  also have "\<dots> = {s. length s = Suc n \<and> (\<forall>c \<in> set s. p c)}"
  proof (rule set_eqI)
    fix s show "(s \<in> {c # w | c w. p c \<and> length w = n \<and> (\<forall>x \<in> set w. p x)})
                 = (s \<in> {s. length s = Suc n \<and> (\<forall>c \<in> set s. p c)})"
      by (cases s) auto
  qed
  finally show ?case .
qed

lemma lang_atleast_cls:
  "lang (AtLeast n (Cls p)) = {s. n \<le> length s \<and> (\<forall>c \<in> set s. p c)}"
proof (rule set_eqI, rule iffI)
  fix s assume "s \<in> lang (AtLeast n (Cls p))"
  then show "s \<in> {s. n \<le> length s \<and> (\<forall>c \<in> set s. p c)}"
    by (auto simp add: AtLeast_def lang_times_cls star_cls conc_def)
next
  fix s assume "s \<in> {s. n \<le> length s \<and> (\<forall>c \<in> set s. p c)}"
  then have n: "n \<le> length s" and a: "\<forall>c \<in> set s. p c" by simp_all
  have "take n s \<in> lang (Times n (Cls p))"
    using n a by (auto simp add: lang_times_cls dest: in_set_takeD)
  moreover have "drop n s \<in> star (lang (Cls p))"
    using a by (auto simp add: star_cls dest: in_set_dropD)
  ultimately have "take n s @ drop n s \<in> lang (AtLeast n (Cls p))"
    unfolding AtLeast_def lang.simps conc_def by blast
  then show "s \<in> lang (AtLeast n (Cls p))" by simp
qed

lemma lang_pin: "(s \<in> lang pin_re) = six_digits s"
  by (simp add: pin_re_def lang_times_cls six_digits_def)

lemma email_shape:
  "lang email_re
     = {a @ CHR ''@'' # r | a r.
          a \<in> {s. s \<noteq> [] \<and> (\<forall>c \<in> set s. not_space_or_at c)}
          \<and> r \<in> {b @ CHR ''.'' # c | b c.
                  b \<in> {s. s \<noteq> [] \<and> (\<forall>c \<in> set s. not_space_or_at c)}
                  \<and> c \<in> {s. s \<noteq> [] \<and> (\<forall>c \<in> set s. not_space_or_at c)}}}"
  by (simp only: email_re_def lang.simps(4) conc_chr lang_plus_cls)

lemma email_shape_mem:
  "(s \<in> lang email_re)
     = (\<exists>a b c. s = a @ CHR ''@'' # b @ CHR ''.'' # c
          \<and> (a \<noteq> [] \<and> (\<forall>x \<in> set a. not_space_or_at x))
          \<and> (b \<noteq> [] \<and> (\<forall>x \<in> set b. not_space_or_at x))
          \<and> (c \<noteq> [] \<and> (\<forall>x \<in> set c. not_space_or_at x)))"
  unfolding email_shape mem_Collect_eq by blast

lemma lang_email: "(s \<in> lang email_re) = well_formed_email s"
  unfolding email_shape_mem well_formed_email_def
  by (simp add: not_space_or_at_def ball_Un conj_ac)

lemma phone_shape:
  "lang phone_re
     = {d # r | d r. is_digit d \<and> r \<in> {s. 6 \<le> length s \<and> (\<forall>c \<in> set s. phone_tail c)}}
       \<union> {CHR ''+'' # b | b.
            b \<in> {d # r | d r.
                   is_digit d \<and> r \<in> {s. 6 \<le> length s \<and> (\<forall>c \<in> set s. phone_tail c)}}}"
  by (simp only: phone_re_def lang.simps(4) conc_opt_chr lang.simps(3) conc_cls
        lang_atleast_cls)

lemma phone_shape_mem:
  "(s \<in> lang phone_re)
     = (\<exists>d r. (s = d # r \<or> s = CHR ''+'' # d # r) \<and> is_digit d
          \<and> 6 \<le> length r \<and> (\<forall>x \<in> set r. phone_tail x))"
proof
  assume "s \<in> lang phone_re"
  then consider
      (plain) d r where "s = d # r" "is_digit d" "6 \<le> length r" "\<forall>x \<in> set r. phone_tail x"
    | (plus) b d r where "s = CHR ''+'' # b" "b = d # r" "is_digit d" "6 \<le> length r"
        "\<forall>x \<in> set r. phone_tail x"
    unfolding phone_shape Un_iff mem_Collect_eq by (elim disjE exE conjE)
  then show "\<exists>d r. (s = d # r \<or> s = CHR ''+'' # d # r) \<and> is_digit d
          \<and> 6 \<le> length r \<and> (\<forall>x \<in> set r. phone_tail x)"
  proof cases
    case plain
    then show ?thesis by (intro exI [of _ d] exI [of _ r]) simp
  next
    case plus
    then show ?thesis by (intro exI [of _ d] exI [of _ r]) simp
  qed
next
  assume "\<exists>d r. (s = d # r \<or> s = CHR ''+'' # d # r) \<and> is_digit d
          \<and> 6 \<le> length r \<and> (\<forall>x \<in> set r. phone_tail x)"
  then obtain d r where
    w: "s = d # r \<or> s = CHR ''+'' # d # r" "is_digit d" "6 \<le> length r"
       "\<forall>x \<in> set r. phone_tail x"
    by (elim exE conjE)
  from w(1) show "s \<in> lang phone_re"
  proof
    assume "s = d # r"
    with w(2-4) show ?thesis unfolding phone_shape Un_iff mem_Collect_eq
      by (intro disjI1 exI [of _ d] exI [of _ r]) simp
  next
    assume "s = CHR ''+'' # d # r"
    with w(2-4) show ?thesis unfolding phone_shape Un_iff mem_Collect_eq
      by (intro disjI2 exI [of _ "d # r"] exI [of _ d] exI [of _ r] conjI) simp_all
  qed
qed

lemma lang_phone: "(s \<in> lang phone_re) = well_formed_phone s"
  unfolding phone_shape_mem well_formed_phone_def by (simp add: phone_tail_def)

lemma all_dropWhile: "(\<forall>x \<in> set (dropWhile P xs). P x) = (\<forall>x \<in> set xs. P x)"
  by (induction xs) auto

lemma trim_empty: "(trim s = []) = blank s"
  by (simp add: trim_def blank_def all_dropWhile)


subsection \<open>Edits\<close>

lemma store_update_length: "length (store_update p col v rows) = length rows"
  by (simp add: store_update_def)

lemma store_update_other:
  "map_of p k = None \<Longrightarrow> map (\<lambda>r. r k) (store_update p col v rows) = map (\<lambda>r. r k) rows"
  by (simp add: store_update_def map_add_def)

lemma store_update_written:
  "map_of p k = Some x \<Longrightarrow>
     map (\<lambda>r. r k) (store_update p col v rows)
       = map (\<lambda>r. if r col = Some v then Some x else r k) rows"
  by (simp add: store_update_def map_add_def)

lemma saveEdit_keys:
  "map fst (saveEdit_payload updated) =
     [''title'', ''leader_name'', ''date'', ''time'', ''location'', ''discipline'', ''capacity'',
      ''message'', ''contact_type'', ''contact_value'', ''leader_pin'']"
  by (simp add: saveEdit_payload_def)

lemma saveEdit_not_written:
  "map_of (saveEdit_payload updated) ''id'' = None"
  "map_of (saveEdit_payload updated) ''created_at'' = None"
  "map_of (saveEdit_payload updated) ''created_by'' = None"
  "map_of (saveEdit_payload updated) ''members'' = None"
  by (simp_all add: saveEdit_payload_def)

lemma saveEdit_pin_written:
  "map_of (saveEdit_payload updated) ''leader_pin'' = Some (JStr (NewSquad.leaderPin updated))"
  by (simp add: saveEdit_payload_def)

lemma EditModal_submit_carries:
  "EditModal_submit m = Some updated \<Longrightarrow>
     NewSquad.leaderPin updated = NewSquad.leaderPin (squad m)
     \<and> SquadBase.id' updated = SquadBase.id' (squad m)
     \<and> createdAt updated = createdAt (squad m)
     \<and> members updated = members (squad m)"
  by (auto simp add: EditModal_submit_def split: if_splits)

text \<open>
  Claim C1, as stated, fails: the payload of \<open>saveEdit\<close> has the key \<open>leader_pin\<close>, and
  the update overwrites the stored PIN with the \<open>leaderPin\<close> of the squad passed in.
  For the sample squad carrying the PIN 222222, the stored PIN 111111 becomes 222222.
\<close>

theorem saveEdit_writes_pin_counterexample:
  "''leader_pin'' \<in> set (map fst (saveEdit_payload squad_A))
   \<and> row_A ''leader_pin'' = Some (JStr ''111111'')
   \<and> hd (store_update (saveEdit_payload (squad_A\<lparr> leaderPin := ''222222'' \<rparr>)) ''id''
           (JStr (SquadBase.id' (squad_A\<lparr> leaderPin := ''222222'' \<rparr>))) [row_A])
        ''leader_pin''
       = Some (JStr ''222222'')"
  by (simp add: saveEdit_payload_def store_update_def row_A_def squad_A_def)

text \<open>
  Claim C1, amended. For every squad passed to \<open>saveEdit\<close>, the one request issued is an
  update of the \<open>squads\<close> table by id whose payload has exactly the keys \<open>title\<close>,
  \<open>leader_name\<close>, \<open>date\<close>, \<open>time\<close>, \<open>location\<close>, \<open>discipline\<close>, \<open>capacity\<close>,
  \<open>message\<close>, \<open>contact_type\<close>, \<open>contact_value\<close> and \<open>leader_pin\<close>. It has no \<open>id\<close>,
  \<open>created_at\<close>, \<open>created_by\<close> or \<open>members\<close> key, so the update leaves those stored
  values of every row as they were and keeps the number of rows; the in-memory list is not
  touched. The stored PIN of the rows the update selects (those whose \<open>id\<close> is the
  value \<open>v\<close> given to \<open>eq\<close>, here the id of the squad) becomes the \<open>leaderPin\<close> of the
  squad passed in, which, for a squad built by the edit modal, is the PIN of the squad
  the modal was opened on (as are its id, creation timestamp and members).
\<close>

theorem saveEdit_frame:
  "requests (saveEdit updated res st)
     = requests st @
         [Update ''squads'' (saveEdit_payload updated) ''id'' (JStr (SquadBase.id' updated))]
   \<and> squads (saveEdit updated res st) = squads st
   \<and> map fst (saveEdit_payload updated) =
       [''title'', ''leader_name'', ''date'', ''time'', ''location'', ''discipline'',
        ''capacity'', ''message'', ''contact_type'', ''contact_value'', ''leader_pin'']
   \<and> length (store_update (saveEdit_payload updated) ''id'' v rows) = length rows
   \<and> (\<forall>k \<in> {''id'', ''created_at'', ''created_by'', ''members''}.
         map (\<lambda>r. r k) (store_update (saveEdit_payload updated) ''id'' v rows)
           = map (\<lambda>r. r k) rows)
   \<and> map (\<lambda>r. r ''leader_pin'') (store_update (saveEdit_payload updated) ''id'' v rows)
       = map (\<lambda>r. if r ''id'' = Some v then Some (JStr (NewSquad.leaderPin updated))
                   else r ''leader_pin'') rows
   \<and> (EditModal_submit m = Some updated \<longrightarrow>
         NewSquad.leaderPin updated = NewSquad.leaderPin (squad m)
         \<and> SquadBase.id' updated = SquadBase.id' (squad m)
         \<and> createdAt updated = createdAt (squad m)
         \<and> members updated = members (squad m))"
proof -
  have 1: "requests (saveEdit updated res st)
     = requests st @
         [Update ''squads'' (saveEdit_payload updated) ''id'' (JStr (SquadBase.id' updated))]"
    and 2: "squads (saveEdit updated res st) = squads st"
    by (simp_all add: saveEdit_def)
  have 3: "\<forall>k \<in> {''id'', ''created_at'', ''created_by'', ''members''}.
         map (\<lambda>r. r k) (store_update (saveEdit_payload updated) ''id'' v rows)
           = map (\<lambda>r. r k) rows"
    using saveEdit_not_written [of updated] by (auto intro: store_update_other)
  show ?thesis
    using 1 2 3 saveEdit_keys [of updated] store_update_length
      store_update_written [OF saveEdit_pin_written] EditModal_submit_carries [of m updated]
    by blast
qed

theorem saveEdit_frame_witness:
  "\<exists>u. EditModal_submit modal_text = Some u
        \<and> NewSquad.leaderPin u = ''111111''
        \<and> map (\<lambda>r. r ''leader_pin'') (store_update (saveEdit_payload u) ''id'' (JStr ''a'') [row_A])
            = [Some (JStr ''111111'')]
        \<and> map (\<lambda>r. r ''created_at'') (store_update (saveEdit_payload u) ''id'' (JStr ''a'') [row_A])
            = [Some (JStr ''2023-12-01T10:00:00+00:00'')]
        \<and> map (\<lambda>r. r ''id'') (store_update (saveEdit_payload u) ''id'' (JStr ''a'') [row_A])
            = [Some (JStr ''a'')]"
proof -
  obtain u where u: "EditModal_submit modal_text = Some u"
    using modal_text_valid by (simp add: EditModal_submit_def)
  note T = saveEdit_frame [of u Done app_A "JStr ''a''" "[row_A]" modal_text]
  have s: "squad modal_text = squad_A" by (simp add: modal_text_def)
  have q: "NewSquad.leaderPin squad_A = ''111111''" by (simp add: squad_A_def)
  from T have "EditModal_submit modal_text = Some u \<longrightarrow>
         NewSquad.leaderPin u = NewSquad.leaderPin (squad modal_text)
         \<and> SquadBase.id' u = SquadBase.id' (squad modal_text)
         \<and> createdAt u = createdAt (squad modal_text)
         \<and> members u = members (squad modal_text)"
    by (elim conjE) assumption
  with u s q have p: "NewSquad.leaderPin u = ''111111''" by simp
  have r: "row_A ''id'' = Some (JStr ''a'')" "row_A ''leader_pin'' = Some (JStr ''111111'')"
          "row_A ''created_at'' = Some (JStr ''2023-12-01T10:00:00+00:00'')"
    by (simp_all add: row_A_def)
  from T have "map (\<lambda>r. r ''leader_pin'') (store_update (saveEdit_payload u) ''id'' (JStr ''a'') [row_A])
       = map (\<lambda>r. if r ''id'' = Some (JStr ''a'') then Some (JStr (NewSquad.leaderPin u))
                   else r ''leader_pin'') [row_A]"
    by (elim conjE) assumption
  with p r have a: "map (\<lambda>r. r ''leader_pin'') (store_update (saveEdit_payload u) ''id'' (JStr ''a'') [row_A])
            = [Some (JStr ''111111'')]" by simp
  from T have k: "\<forall>k \<in> {''id'', ''created_at'', ''created_by'', ''members''}.
         map (\<lambda>r. r k) (store_update (saveEdit_payload u) ''id'' (JStr ''a'') [row_A])
           = map (\<lambda>r. r k) [row_A]"
    by (elim conjE) assumption
  from k have "map (\<lambda>r. r ''created_at'') (store_update (saveEdit_payload u) ''id'' (JStr ''a'') [row_A])
           = map (\<lambda>r. r ''created_at'') [row_A]"
    by (rule bspec) simp
  with r have b: "map (\<lambda>r. r ''created_at'') (store_update (saveEdit_payload u) ''id'' (JStr ''a'') [row_A])
            = [Some (JStr ''2023-12-01T10:00:00+00:00'')]"
    by simp
  from k have "map (\<lambda>r. r ''id'') (store_update (saveEdit_payload u) ''id'' (JStr ''a'') [row_A])
           = map (\<lambda>r. r ''id'') [row_A]"
    by (rule bspec) simp
  with r have c: "map (\<lambda>r. r ''id'') (store_update (saveEdit_payload u) ''id'' (JStr ''a'') [row_A])
            = [Some (JStr ''a'')]"
    by simp
  show ?thesis using u p a b c by (intro exI [of _ u] conjI)
qed


subsection \<open>From a new squad to its row and back\<close>

lemma contact_type_of_name: "contact_type_of (contact_type_name t) = Some t"
  by (cases t) (simp_all add: contact_type_of_def)

lemma insert_row_decodes:
  "as_DBSquad (insert_row [(''id'', JStr i), (''created_at'', JStr ts)] (addSquad_payload user data))
     = Some \<lparr> DBSquad.id' = i, DBSquad.title = NewSquad.title data,
              leader_name = NewSquad.leaderName data, DBSquad.date = NewSquad.date data,
              DBSquad.time = NewSquad.time data, DBSquad.location = NewSquad.location data,
              DBSquad.discipline = NewSquad.discipline data,
              DBSquad.capacity = NewSquad.capacity data, DBSquad.message = NewSquad.message data,
              contact_type = type' (contact data), contact_value = value (contact data),
              leader_pin = NewSquad.leaderPin data, created_at = ts, created_by = user \<rparr>"
  by (simp add: as_DBSquad_def insert_row_def addSquad_payload_def str_col_def num_col_def
        nullable_col_def map_add_def contact_type_of_name split: option.splits)

lemma mapFromDB_back:
  "NewSquad.truncate (mapFromDB getTime
      \<lparr> DBSquad.id' = i, DBSquad.title = NewSquad.title data,
              leader_name = NewSquad.leaderName data, DBSquad.date = NewSquad.date data,
              DBSquad.time = NewSquad.time data, DBSquad.location = NewSquad.location data,
              DBSquad.discipline = NewSquad.discipline data,
              DBSquad.capacity = NewSquad.capacity data, DBSquad.message = NewSquad.message data,
              contact_type = type' (contact data), contact_value = value (contact data),
              leader_pin = NewSquad.leaderPin data, created_at = ts, created_by = user \<rparr>) = data"
  by (cases data) (simp add: mapFromDB_def NewSquad.truncate_def split: option.splits)

lemma insert_row_message:
  "insert_row [(''id'', JStr i), (''created_at'', JStr ts)] (addSquad_payload user data) ''message''
     = Some (case NewSquad.message data of Some m \<Rightarrow> JStr m | None \<Rightarrow> JNull)"
  by (simp add: insert_row_def addSquad_payload_def map_add_def)

text \<open>
  Claim C2. For every new squad \<open>data\<close>, whatever id and creation time the store gives
  the row and whoever the user is: the row stored for the payload of \<open>addSquad\<close> reads as
  a \<open>DBSquad\<close>, and \<open>mapFromDB\<close> of it has exactly the fields of \<open>data\<close>
  (\<open>NewSquad.truncate\<close> drops the two fields \<open>id\<close> and \<open>createdAt\<close> that \<open>mapFromDB\<close>
  adds; the PIN is among the fields that come back). An undefined message is stored as
  \<open>null\<close> and comes back undefined.
\<close>

theorem addSquad_mapFromDB_roundtrip:
  "\<exists>row. as_DBSquad
            (insert_row [(''id'', JStr i), (''created_at'', JStr ts)] (addSquad_payload user data))
          = Some row
        \<and> NewSquad.truncate (mapFromDB getTime row) = data
        \<and> SquadBase.id' (mapFromDB getTime row) = i
        \<and> createdAt (mapFromDB getTime row) = getTime ts
        \<and> (NewSquad.message data = None \<longrightarrow>
              insert_row [(''id'', JStr i), (''created_at'', JStr ts)]
                (addSquad_payload user data) ''message'' = Some JNull
              \<and> DBSquad.message row = None
              \<and> NewSquad.message (mapFromDB getTime row) = None)"
proof -
  let ?row = "\<lparr> DBSquad.id' = i, DBSquad.title = NewSquad.title data,
              leader_name = NewSquad.leaderName data, DBSquad.date = NewSquad.date data,
              DBSquad.time = NewSquad.time data, DBSquad.location = NewSquad.location data,
              DBSquad.discipline = NewSquad.discipline data,
              DBSquad.capacity = NewSquad.capacity data, DBSquad.message = NewSquad.message data,
              contact_type = type' (contact data), contact_value = value (contact data),
              leader_pin = NewSquad.leaderPin data, created_at = ts, created_by = user \<rparr>"
  have a: "as_DBSquad
            (insert_row [(''id'', JStr i), (''created_at'', JStr ts)] (addSquad_payload user data))
          = Some ?row"
    by (rule insert_row_decodes)
  have b: "NewSquad.truncate (mapFromDB getTime ?row) = data"
    by (rule mapFromDB_back)
  have c: "SquadBase.id' (mapFromDB getTime ?row) = i"
          "createdAt (mapFromDB getTime ?row) = getTime ts"
    by (simp_all add: mapFromDB_def)
  have d: "NewSquad.message data = None \<longrightarrow>
              insert_row [(''id'', JStr i), (''created_at'', JStr ts)]
                (addSquad_payload user data) ''message'' = Some JNull
              \<and> DBSquad.message ?row = None
              \<and> NewSquad.message (mapFromDB getTime ?row) = None"
    by (simp add: insert_row_message mapFromDB_def)
  show ?thesis using a b c d by (intro exI [of _ ?row] conjI)
qed

theorem addSquad_mapFromDB_roundtrip_witness:
  "NewSquad.message new_A = None
   \<and> (\<exists>row. as_DBSquad
               (insert_row [(''id'', JStr ''a''), (''created_at'', JStr ''2023-12-01T10:00:00+00:00'')]
                  (addSquad_payload None new_A))
             = Some row
           \<and> NewSquad.truncate (mapFromDB (\<lambda>s. Some 1701424800000) row) = new_A
           \<and> DBSquad.message row = None
           \<and> NewSquad.message (mapFromDB (\<lambda>s. Some 1701424800000) row) = None)"
proof -
  have m: "NewSquad.message new_A = None" by (simp add: new_A_def)
  from addSquad_mapFromDB_roundtrip
         [of "''a''" "''2023-12-01T10:00:00+00:00''" None new_A "\<lambda>s. Some 1701424800000"]
  obtain row where
    "as_DBSquad
       (insert_row [(''id'', JStr ''a''), (''created_at'', JStr ''2023-12-01T10:00:00+00:00'')]
          (addSquad_payload None new_A)) = Some row"
    "NewSquad.truncate (mapFromDB (\<lambda>s. Some 1701424800000) row) = new_A"
    "NewSquad.message new_A = None \<longrightarrow>
       insert_row [(''id'', JStr ''a''), (''created_at'', JStr ''2023-12-01T10:00:00+00:00'')]
         (addSquad_payload None new_A) ''message'' = Some JNull
       \<and> DBSquad.message row = None
       \<and> NewSquad.message (mapFromDB (\<lambda>s. Some 1701424800000) row) = None"
    by (elim exE conjE)
  with m show ?thesis by (intro conjI exI [of _ row]) simp_all
qed


subsection \<open>Validation of the post form\<close>


lemma keys_assign:
  "fst ` set (if c then AList.update k v e else e) = {x. x = k \<and> c} \<union> fst ` set e"
  by (auto simp add: dom_update)

lemma keys_assign2:
  "fst ` set (if a then AList.update k v e else if b then AList.update k w e else e)
     = {x. x = k \<and> (a \<or> b)} \<union> fst ` set e"
  by (auto simp add: dom_update)

lemma PostForm_error_keys:
  "fst ` set (PostForm_errors p)
     = {x. x = ''leaderPin'' \<and> (trim (PostForm.leaderPin p) = []
                                  \<or> \<not> test pin_re (trim (PostForm.leaderPin p)))}
       \<union> ({x. x = ''contact'' \<and> (contactType p = Phone \<or> contactType p = Text)
                                \<and> \<not> test phone_re (trim (contactValue p))}
       \<union> ({x. x = ''contact'' \<and> contactType p = Email
                                \<and> \<not> test email_re (trim (contactValue p))}
       \<union> ({x. x = ''contact'' \<and> trim (contactValue p) = []}
       \<union> ({x. x = ''capacity'' \<and> (FormState.capacity p = 0 \<or> FormState.capacity p < 1)}
       \<union> ({x. x = ''location'' \<and> trim (FormState.location p) = []}
       \<union> ({x. x = ''time'' \<and> FormState.time p = []}
       \<union> ({x. x = ''date'' \<and> FormState.date p = []}
       \<union> ({x. x = ''leaderName'' \<and> trim (FormState.leaderName p) = []}
       \<union> ({x. x = ''title'' \<and> trim (FormState.title p) = []} \<union> {})))))))))"
  by (simp only: PostForm_errors_def Let_def keys_assign keys_assign2 list.set image_empty)

lemma shuffle:
  "(P8 \<or> (K \<and> X3) \<or> (K \<and> X2) \<or> (K \<and> X1) \<or> P6 \<or> P5 \<or> P4 \<or> P3 \<or> P2 \<or> P1 \<or> False)
     = (P1 \<or> P2 \<or> P3 \<or> P4 \<or> P5 \<or> P6 \<or> K \<and> (X1 \<or> X2 \<or> X3) \<or> P8)"
  by blast

lemma pin_rule: "(s = [] \<or> \<not> test pin_re s) = (\<not> six_digits s)"
  by (auto simp add: test_lang lang_pin six_digits_def)

lemma capacity_rule: "(c = 0 \<or> c < 1) = (c < (1::int))"
  by auto

lemma error_key_iff: "(k \<in> fst ` set (PostForm_errors p)) = field_problem p k"
  unfolding PostForm_error_keys field_problem_def
  unfolding pin_rule capacity_rule
  unfolding trim_empty test_lang lang_email lang_phone Un_iff mem_Collect_eq empty_iff
  by (rule shuffle)

lemma validate_keys: "PostForm_validate p = (fst ` set (PostForm_errors p) = {})"
  by (simp add: PostForm_validate_def)


lemma not_an_email: "\<not> well_formed_email (trim ''not-an-email'')"
proof -
  have "\<not> test email_re (trim ''not-an-email'')"
    by (simp add: trim_def re_defs)
  then show ?thesis unfolding test_lang lang_email .
qed

lemma not_a_pin: "\<not> six_digits (trim ''12a456'')"
  by (simp add: trim_def six_digits_def is_digit_def is_space_def)

text \<open>
  Claim C3. For every draft, \<open>validate\<close> of the post form returns false exactly when
  some required field is empty or malformed by the rules of \<open>field_problem\<close>, and the
  keys of the error object are exactly the keys of the fields with a problem. An empty
  title gives an error keyed \<open>title\<close>; the contact type Email with the value
  \<open>not-an-email\<close> gives one keyed \<open>contact\<close>; the PIN \<open>12a456\<close> gives one keyed
  \<open>leaderPin\<close>. For a draft without a problem it returns true. When it returns false,
  \<open>submit\<close> does not call \<open>onSubmit\<close>.
\<close>

theorem PostForm_validate_rejects_iff:
  "(\<not> PostForm_validate p) = (\<exists>k. field_problem p k)
   \<and> (\<forall>k. (k \<in> fst ` set (PostForm_errors p)) = field_problem p k)
   \<and> (FormState.title p = [] \<longrightarrow>
        \<not> PostForm_validate p \<and> ''title'' \<in> fst ` set (PostForm_errors p))
   \<and> (contactType p = Email \<and> contactValue p = ''not-an-email'' \<longrightarrow>
        \<not> PostForm_validate p \<and> ''contact'' \<in> fst ` set (PostForm_errors p))
   \<and> (PostForm.leaderPin p = ''12a456'' \<longrightarrow>
        \<not> PostForm_validate p \<and> ''leaderPin'' \<in> fst ` set (PostForm_errors p))
   \<and> ((\<forall>k. \<not> field_problem p k) \<longrightarrow> PostForm_validate p)
   \<and> (\<not> PostForm_validate p \<longrightarrow> fst (PostForm_submit p) = None)"
proof -
  have e: "(fst ` set (PostForm_errors p) = {}) = (\<forall>k. \<not> field_problem p k)"
    unfolding set_eq_iff error_key_iff by simp
  have v: "(\<not> PostForm_validate p) = (\<exists>k. field_problem p k)"
    unfolding validate_keys e by simp
  have a: "\<forall>k. (k \<in> fst ` set (PostForm_errors p)) = field_problem p k"
    by (simp only: error_key_iff simp_thms)
  have t: "field_problem p ''title''" if "FormState.title p = []"
    using that by (simp add: field_problem_def blank_def)
  have c: "field_problem p ''contact''"
    if "contactType p = Email \<and> contactValue p = ''not-an-email''"
    using that not_an_email by (simp add: field_problem_def)
  have l: "field_problem p ''leaderPin''" if "PostForm.leaderPin p = ''12a456''"
    using that not_a_pin by (simp add: field_problem_def)
  have 3: "FormState.title p = [] \<longrightarrow>
        \<not> PostForm_validate p \<and> ''title'' \<in> fst ` set (PostForm_errors p)"
    unfolding v error_key_iff using t by (intro impI conjI exI [of _ "''title''"])
  have 4: "contactType p = Email \<and> contactValue p = ''not-an-email'' \<longrightarrow>
        \<not> PostForm_validate p \<and> ''contact'' \<in> fst ` set (PostForm_errors p)"
    unfolding v error_key_iff using c by (intro impI conjI exI [of _ "''contact''"])
  have 5: "PostForm.leaderPin p = ''12a456'' \<longrightarrow>
        \<not> PostForm_validate p \<and> ''leaderPin'' \<in> fst ` set (PostForm_errors p)"
    unfolding v error_key_iff using l by (intro impI conjI exI [of _ "''leaderPin''"])
  have 6: "(\<forall>k. \<not> field_problem p k) \<longrightarrow> PostForm_validate p"
    using v by blast
  have 7: "\<not> PostForm_validate p \<longrightarrow> fst (PostForm_submit p) = None"
    by (simp add: PostForm_submit_def)
  from v a 3 4 5 6 7 show ?thesis by (intro conjI)
qed


theorem PostForm_validate_rejects_iff_witness:
  "PostForm_validate form_phone \<and> (\<forall>k. \<not> field_problem form_phone k)
   \<and> FormState.title (form_phone\<lparr> FormState.title := [] \<rparr>) = []
   \<and> \<not> PostForm_validate (form_phone\<lparr> FormState.title := [] \<rparr>)
   \<and> ''title'' \<in> fst ` set (PostForm_errors (form_phone\<lparr> FormState.title := [] \<rparr>))
   \<and> \<not> PostForm_validate (form_phone\<lparr> contactType := Email, contactValue := ''not-an-email'' \<rparr>)
   \<and> ''contact'' \<in> fst ` set (PostForm_errors
         (form_phone\<lparr> contactType := Email, contactValue := ''not-an-email'' \<rparr>))
   \<and> \<not> PostForm_validate (form_phone\<lparr> PostForm.leaderPin := ''12a456'' \<rparr>)
   \<and> ''leaderPin'' \<in> fst ` set (PostForm_errors (form_phone\<lparr> PostForm.leaderPin := ''12a456'' \<rparr>))"
proof -
  note T0 = PostForm_validate_rejects_iff [of form_phone, THEN conjunct1]
  with form_phone_valid have a: "\<forall>k. \<not> field_problem form_phone k" by blast
  have h1: "FormState.title (form_phone\<lparr> FormState.title := [] \<rparr>) = []" by simp
  note T1 = PostForm_validate_rejects_iff
    [of "form_phone\<lparr> FormState.title := [] \<rparr>",
     THEN conjunct2, THEN conjunct2, THEN conjunct1, rule_format, OF h1]
  have h2: "contactType (form_phone\<lparr> contactType := Email, contactValue := ''not-an-email'' \<rparr>) = Email
     \<and> contactValue (form_phone\<lparr> contactType := Email, contactValue := ''not-an-email'' \<rparr>)
         = ''not-an-email''"
    by simp
  note T2 = PostForm_validate_rejects_iff
    [of "form_phone\<lparr> contactType := Email, contactValue := ''not-an-email'' \<rparr>",
     THEN conjunct2, THEN conjunct2, THEN conjunct2, THEN conjunct1, rule_format, OF h2]
  have h3: "PostForm.leaderPin (form_phone\<lparr> PostForm.leaderPin := ''12a456'' \<rparr>) = ''12a456''"
    by simp
  note T3 = PostForm_validate_rejects_iff
    [of "form_phone\<lparr> PostForm.leaderPin := ''12a456'' \<rparr>",
     THEN conjunct2, THEN conjunct2, THEN conjunct2, THEN conjunct2, THEN conjunct1,
     rule_format, OF h3]
  from form_phone_valid a h1 T1 T2 T3 show ?thesis by (intro conjI) (elim conjE, assumption)+
qed


subsection \<open>The only-upcoming filter\<close>

lemma mset_insert_by: "mset (insert_by cmp x ys) = add_mset x (mset ys)"
  by (induction ys) simp_all

lemma mset_insertion_sort: "mset (insertion_sort cmp xs) = mset xs"
  by (induction xs) (simp_all add: mset_insert_by)

lemma insertion_sort_permuting: "permuting insertion_sort"
  by (simp add: permuting_def mset_insertion_sort)

lemma mset_visible:
  "permuting arraySort \<Longrightarrow>
     mset (visible arraySort getTime now sqs f) = filter_mset (keeps getTime now f) (mset sqs)"
  by (simp add: visible_def permuting_def)

lemma set_visible:
  assumes "permuting arraySort"
  shows "set (visible arraySort getTime now sqs f) = {s \<in> set sqs. keeps getTime now f s}"
proof -
  have "set (visible arraySort getTime now sqs f) = set_mset (mset (visible arraySort getTime now sqs f))"
    by simp
  also have "\<dots> = set_mset (filter_mset (keeps getTime now f) (mset sqs))"
    by (simp only: mset_visible [OF assms])
  finally show ?thesis by simp
qed

lemma older_iff:
  "older_than_a_day getTime now s
     = (\<exists>w. squad_instant getTime s = Some w \<and> 86400000 < now - w)"
  by (auto simp add: older_than_a_day_def split: option.splits)

lemma keeps_iff:
  "keeps getTime now f s
     = ((onlyUpcoming f \<longrightarrow> \<not> older_than_a_day getTime now s) \<and> passes_other_filters f s)"
  by (auto simp add: keeps_def passes_other_filters_def)

text \<open>
  Claim C4. For every list of squads and every evaluation instant \<open>now\<close>, with
  \<open>onlyUpcoming\<close> enabled, and whatever order the engine's sort gives its result: the
  visible list holds, as often as the list itself, exactly the squads that pass the discipline and query conditions and whose instant is not more
  than 86,400,000 ms before \<open>now\<close>; with the discipline filter at "All" and an empty
  query, the squads dropped are exactly those whose instant is more than 86,400,000 ms
  before \<open>now\<close>. A squad exactly 86,400,001 ms in the past is not visible; one exactly
  86,400,000 ms in the past that is in the list and passes the other conditions is.
\<close>

theorem only_upcoming_threshold:
  assumes "onlyUpcoming f" and "permuting arraySort"
  shows "mset (visible arraySort getTime now sqs f)
           = filter_mset
               (\<lambda>s. \<not> (\<exists>w. squad_instant getTime s = Some w \<and> 86400000 < now - w)
                     \<and> passes_other_filters f s)
               (mset sqs)
         \<and> (Filters.discipline f = ''All'' \<and> query f = [] \<longrightarrow>
              mset (visible arraySort getTime now sqs f)
                = filter_mset
                    (\<lambda>s. \<not> (\<exists>w. squad_instant getTime s = Some w \<and> 86400000 < now - w))
                    (mset sqs))
         \<and> (squad_instant getTime s = Some (now - 86400001) \<longrightarrow>
              s \<notin> set (visible arraySort getTime now sqs f))
         \<and> (squad_instant getTime s = Some (now - 86400000) \<and> s \<in> set sqs
              \<and> passes_other_filters f s \<longrightarrow>
              s \<in> set (visible arraySort getTime now sqs f))"
proof -
  have k: "keeps getTime now f x
             = (\<not> (\<exists>w. squad_instant getTime x = Some w \<and> 86400000 < now - w)
                \<and> passes_other_filters f x)" for x
    using assms(1) by (simp add: keeps_iff older_iff)
  have m: "mset (visible arraySort getTime now sqs f) = filter_mset (keeps getTime now f) (mset sqs)"
    using assms(2) by (rule mset_visible)
  have 1: "mset (visible arraySort getTime now sqs f)
           = filter_mset
               (\<lambda>s. \<not> (\<exists>w. squad_instant getTime s = Some w \<and> 86400000 < now - w)
                     \<and> passes_other_filters f s)
               (mset sqs)"
    unfolding m by (rule filter_mset_cong) (simp_all add: k)
  have 2: "mset (visible arraySort getTime now sqs f)
                = filter_mset
                    (\<lambda>s. \<not> (\<exists>w. squad_instant getTime s = Some w \<and> 86400000 < now - w))
                    (mset sqs)"
    if "Filters.discipline f = ''All'' \<and> query f = []"
    unfolding m using that
    by (intro filter_mset_cong) (simp_all add: k passes_other_filters_def)
  have 3: "s \<notin> set (visible arraySort getTime now sqs f)"
    if "squad_instant getTime s = Some (now - 86400001)"
    using that by (simp add: set_visible [OF assms(2)] k)
  have 4: "s \<in> set (visible arraySort getTime now sqs f)"
    if "squad_instant getTime s = Some (now - 86400000) \<and> s \<in> set sqs
              \<and> passes_other_filters f s"
    using that by (simp add: set_visible [OF assms(2)] k)
  from 1 2 3 4 show ?thesis by blast
qed

theorem only_upcoming_threshold_witness:
  "onlyUpcoming (filters app_A)
   \<and> permuting (insertion_sort :: (Squad \<Rightarrow> Squad \<Rightarrow> int option) \<Rightarrow> Squad list \<Rightarrow> Squad list)
   \<and> squad_instant clock_A squad_A = Some (1704186000001 - 86400001)
   \<and> squad_A \<notin> set (visible insertion_sort clock_A 1704186000001 [squad_A] (filters app_A))
   \<and> squad_instant clock_A squad_A = Some (1704186000000 - 86400000)
   \<and> squad_A \<in> set (visible insertion_sort clock_A 1704186000000 [squad_A] (filters app_A))"
proof -
  have u: "onlyUpcoming (filters app_A)" by (simp add: app_A_def)
  have i: "squad_instant clock_A squad_A = Some 1704099600000"
    by (simp add: squad_instant_def squad_A_def clock_A_def)
  have p: "passes_other_filters (filters app_A) squad_A"
    by (simp add: passes_other_filters_def app_A_def)
  have i1: "squad_instant clock_A squad_A = Some (1704186000001 - 86400001)"
    and i0: "squad_instant clock_A squad_A = Some (1704186000000 - 86400000)"
    using i by simp_all
  note T1 = only_upcoming_threshold [OF u insertion_sort_permuting, of clock_A 1704186000001 "[squad_A]" squad_A]
  note T0 = only_upcoming_threshold [OF u insertion_sort_permuting, of clock_A 1704186000000 "[squad_A]" squad_A]
  from T1 have "squad_instant clock_A squad_A = Some (1704186000001 - 86400001) \<longrightarrow>
              squad_A \<notin> set (visible insertion_sort clock_A 1704186000001 [squad_A] (filters app_A))"
    by (elim conjE) assumption
  with i1 have a: "squad_A \<notin> set (visible insertion_sort clock_A 1704186000001 [squad_A] (filters app_A))"
    by (rule rev_mp)
  from T0 have "squad_instant clock_A squad_A = Some (1704186000000 - 86400000)
              \<and> squad_A \<in> set [squad_A] \<and> passes_other_filters (filters app_A) squad_A \<longrightarrow>
              squad_A \<in> set (visible insertion_sort clock_A 1704186000000 [squad_A] (filters app_A))"
    by (elim conjE) assumption
  with i0 p have b: "squad_A \<in> set (visible insertion_sort clock_A 1704186000000 [squad_A] (filters app_A))"
    by simp
  show ?thesis using u insertion_sort_permuting i1 a i0 b by (intro conjI)
qed


subsection \<open>The PIN gate of \<open>deleteSquad\<close>\<close>

text \<open>
  Claim C5. For every id present in the in-memory list, let \<open>s\<close> be the squad that
  \<open>find\<close> returns for it. \<open>deleteSquad\<close> with a PIN different from the PIN of \<open>s\<close> sets
  the error status "PIN is incorrect", issues no request and changes nothing else; with
  the PIN of \<open>s\<close> it issues the delete by id and sets the success status, whatever the
  delete resolves to (\<open>res\<close> is arbitrary).
\<close>

theorem deleteSquad_pin_gate:
  assumes "i \<in> SquadBase.id' ` set (squads st)"
  shows "\<exists>s. find (\<lambda>x. SquadBase.id' x = i) (squads st) = Some s
           \<and> s \<in> set (squads st) \<and> SquadBase.id' s = i
           \<and> (pin \<noteq> NewSquad.leaderPin s \<longrightarrow>
                deleteSquad i pin res st
                  = st\<lparr> toast := Some \<lparr> kind = error, text = ''PIN is incorrect'' \<rparr> \<rparr>
                \<and> requests (deleteSquad i pin res st) = requests st
                \<and> squads (deleteSquad i pin res st) = squads st)
           \<and> (pin = NewSquad.leaderPin s \<longrightarrow>
                requests (deleteSquad i pin res st)
                  = requests st @ [Delete ''squads'' ''id'' (JStr i)]
                \<and> toast (deleteSquad i pin res st)
                  = Some \<lparr> kind = success, text = ''Squad deleted'' \<rparr>
                \<and> squads (deleteSquad i pin res st) = squads st)"
proof -
  from find_present [OF assms] obtain s where
    s: "find (\<lambda>x. SquadBase.id' x = i) (squads st) = Some s" "s \<in> set (squads st)"
       "SquadBase.id' s = i"
    by blast
  from s(1) have "pin \<noteq> NewSquad.leaderPin s \<longrightarrow>
      deleteSquad i pin res st = st\<lparr> toast := Some \<lparr> kind = error, text = ''PIN is incorrect'' \<rparr> \<rparr>"
    by (simp add: deleteSquad_def)
  moreover from s(1) have "pin = NewSquad.leaderPin s \<longrightarrow>
      deleteSquad i pin res st
        = st\<lparr> requests := requests st @ [Delete ''squads'' ''id'' (JStr i)],
              toast := Some \<lparr> kind = success, text = ''Squad deleted'' \<rparr> \<rparr>"
    by (simp add: deleteSquad_def)
  ultimately show ?thesis using s by auto
qed

theorem deleteSquad_pin_gate_witness:
  "''a'' \<in> SquadBase.id' ` set (squads app_A)
   \<and> requests (deleteSquad ''a'' ''000000'' Done app_A) = []
   \<and> toast (deleteSquad ''a'' ''000000'' (Failed ''x'') app_A)
       = Some \<lparr> kind = error, text = ''PIN is incorrect'' \<rparr>
   \<and> requests (deleteSquad ''a'' ''111111'' (Failed ''x'') app_A)
       = [Delete ''squads'' ''id'' (JStr ''a'')]
   \<and> toast (deleteSquad ''a'' ''111111'' (Failed ''x'') app_A)
       = Some \<lparr> kind = success, text = ''Squad deleted'' \<rparr>"
proof -
  have h: "''a'' \<in> SquadBase.id' ` set (squads app_A)"
    by (simp add: app_A_def squad_A_def)
  have f: "find (\<lambda>x. SquadBase.id' x = ''a'') (squads app_A) = Some squad_A"
    by (simp add: app_A_def squad_A_def)
  have p: "NewSquad.leaderPin squad_A = ''111111''" by (simp add: squad_A_def)
  have r: "requests app_A = []" by (simp add: app_A_def)
  from deleteSquad_pin_gate [OF h, of "''000000''" Done]
       deleteSquad_pin_gate [OF h, of "''000000''" "Failed ''x''"]
       deleteSquad_pin_gate [OF h, of "''111111''" "Failed ''x''"]
  show ?thesis using h f p r by auto
qed


subsection \<open>Occupancy\<close>

text \<open>
  Claim C6. For every squad, the figures the card shows and gates joining with are
  \<open>used = 1 + members.length\<close>, \<open>left = max(0, capacity - used)\<close> and
  \<open>full\<close> exactly when \<open>left = 0\<close> (that is, when the capacity does not exceed the
  occupancy); the join button is disabled exactly when the squad is full. With capacity 4
  and three members: \<open>used = 4\<close>, \<open>left = 0\<close>, \<open>full\<close>, and joining is disabled.
\<close>

theorem occupancy_figures:
  "used (SquadCard sq) = 1 + int (length (members sq))
   \<and> left (SquadCard sq) = max 0 (NewSquad.capacity sq - used (SquadCard sq))
   \<and> full (SquadCard sq) = (left (SquadCard sq) = 0)
   \<and> full (SquadCard sq) = (NewSquad.capacity sq \<le> 1 + int (length (members sq)))
   \<and> join_disabled (SquadCard sq) = full (SquadCard sq)
   \<and> (NewSquad.capacity sq = 4 \<and> length (members sq) = 3 \<longrightarrow>
        used (SquadCard sq) = 4 \<and> left (SquadCard sq) = 0 \<and> full (SquadCard sq)
        \<and> join_disabled (SquadCard sq))"
  by (auto simp add: SquadCard_def Let_def)

theorem occupancy_figures_witness:
  "NewSquad.capacity squad_A = 4 \<and> length (members squad_A) = 3
   \<and> used (SquadCard squad_A) = 4 \<and> left (SquadCard squad_A) = 0
   \<and> full (SquadCard squad_A) \<and> join_disabled (SquadCard squad_A)"
  using occupancy_figures [of squad_A] by (simp add: squad_A_def)


subsection \<open>The statuses of the email relay\<close>

text \<open>
  Claim C7. For every request to the relay: a method other than POST is answered with
  405; a POST whose body has no \<open>email\<close> (or a falsy one) with 400; a POST with an email
  but no configured key with 500; a POST with an email and a key whose relay call throws
  with 500; and otherwise the parsed body of the provider's response is sent back with
  status 200.
\<close>

theorem handler_statuses:
  "(method req \<noteq> ''POST'' \<longrightarrow> status (handler relay apiKey req) = 405)
   \<and> (method req = ''POST'' \<and> body_field req ''email'' = None \<longrightarrow>
        status (handler relay apiKey req) = 400)
   \<and> (method req = ''POST'' \<and> \<not> truthy (body_field req ''email'') \<longrightarrow>
        status (handler relay apiKey req) = 400)
   \<and> (method req = ''POST'' \<and> truthy (body_field req ''email'')
        \<and> (apiKey = None \<or> apiKey = Some []) \<longrightarrow>
        status (handler relay apiKey req) = 500)
   \<and> (\<forall>key to. method req = ''POST'' \<and> body_field req ''email'' = Some to \<and> truthy (Some to)
        \<and> apiKey = Some key \<and> key \<noteq> [] \<longrightarrow>
        (case relay (resend_call key to (body_field req ''subject'') (body_field req ''message''))
         of None \<Rightarrow> status (handler relay apiKey req) = 500
          | Some data \<Rightarrow> handler relay apiKey req = \<lparr> status = 200, sent = data \<rparr>))"
  by (auto simp add: handler_def Let_def split: option.splits)

theorem handler_statuses_witness:
  "method (req_A\<lparr> method := ''GET'' \<rparr>) \<noteq> ''POST''
   \<and> status (handler relay_ok (Some ''k'') (req_A\<lparr> method := ''GET'' \<rparr>)) = 405
   \<and> body_field (req_A\<lparr> body := Some (JObj []) \<rparr>) ''email'' = None
   \<and> status (handler relay_ok (Some ''k'') (req_A\<lparr> body := Some (JObj []) \<rparr>)) = 400
   \<and> truthy (body_field req_A ''email'')
   \<and> status (handler relay_ok None req_A) = 500
   \<and> status (handler (\<lambda>c. None) (Some ''k'') req_A) = 500
   \<and> handler relay_ok (Some ''k'') req_A = \<lparr> status = 200, sent = JObj [(''id'', JStr ''e1'')] \<rparr>"
proof -
  have m: "method req_A = ''POST''" "method (req_A\<lparr> body := Some (JObj []) \<rparr>) = ''POST''"
          "method (req_A\<lparr> method := ''GET'' \<rparr>) \<noteq> ''POST''"
    by (simp_all add: req_A_def)
  have e: "body_field req_A ''email'' = Some (JStr ''bob@example.com'')"
          "body_field (req_A\<lparr> body := Some (JObj []) \<rparr>) ''email'' = None"
    by (simp_all add: req_A_def body_field_def or_else_def)
  have r: "relay_ok c = Some (JObj [(''id'', JStr ''e1'')])" for c
    by (simp add: relay_ok_def)
  from handler_statuses [of "req_A\<lparr> method := ''GET'' \<rparr>" relay_ok "Some ''k''"]
       handler_statuses [of "req_A\<lparr> body := Some (JObj []) \<rparr>" relay_ok "Some ''k''"]
       handler_statuses [of req_A relay_ok None]
       handler_statuses [of req_A "\<lambda>c. None" "Some ''k''"]
       handler_statuses [of req_A relay_ok "Some ''k''"]
  show ?thesis using m e r by simp
qed


subsection \<open>An id that is not in the list\<close>

text \<open>
  Claim C8. For every id that no squad of the in-memory list has, and every PIN,
  \<open>deleteSquad\<close> returns the state as it was: no request, no status. \<open>startEdit\<close> on the
  same id sets the error status "Not found" (and issues no request either).
\<close>

theorem unknown_id_delete_silent_edit_reports:
  assumes "i \<notin> SquadBase.id' ` set (squads st)"
  shows "deleteSquad i pin res st = st
         \<and> requests (deleteSquad i pin res st) = requests st
         \<and> toast (deleteSquad i pin res st) = toast st
         \<and> startEdit i pin st = st\<lparr> toast := Some \<lparr> kind = error, text = ''Not found'' \<rparr> \<rparr>
         \<and> requests (startEdit i pin st) = requests st"
  using find_absent [OF assms] by (simp add: deleteSquad_def startEdit_def)

theorem unknown_id_delete_silent_edit_reports_witness:
  "''zz'' \<notin> SquadBase.id' ` set (squads app_A)
   \<and> deleteSquad ''zz'' ''111111'' Done app_A = app_A
   \<and> toast (deleteSquad ''zz'' ''111111'' Done app_A) = None
   \<and> toast (startEdit ''zz'' ''111111'' app_A) = Some \<lparr> kind = error, text = ''Not found'' \<rparr>"
proof -
  have h: "''zz'' \<notin> SquadBase.id' ` set (squads app_A)"
    by (simp add: app_A_def squad_A_def)
  have t: "toast app_A = None" by (simp add: app_A_def)
  from unknown_id_delete_silent_edit_reports [OF h, of "''111111''" Done]
  show ?thesis using h t by simp
qed


subsection \<open>The phone sanitiser\<close>

text \<open>
  Claim C9. For every string \<open>p\<close>, \<open>sanitizePhone p\<close> is \<open>p\<close> without the characters that
  are neither a decimal digit nor \<open>+\<close>, and sanitising twice is sanitising once. The
  contact value that the post form hands to \<open>onSubmit\<close>, and the one the edit modal hands
  to \<open>onSave\<close>, is the sanitised input when the contact type is Phone or Text and the
  trimmed input otherwise; the insert and the update store that value as
  \<open>contact_value\<close>, so for Phone and Text it consists of digits and \<open>+\<close> only.
\<close>

theorem sanitizePhone_digits_plus:
  "sanitizePhone p = filter (\<lambda>c. is_digit c \<or> c = CHR ''+'') p
   \<and> (\<forall>c \<in> set (sanitizePhone p). is_digit c \<or> c = CHR ''+'')
   \<and> sanitizePhone (sanitizePhone p) = sanitizePhone p
   \<and> (\<forall>sq. fst (PostForm_submit f) = Some sq \<longrightarrow>
         value (contact sq) =
           (if contactType f = Phone \<or> contactType f = Text
            then sanitizePhone (contactValue f) else trim (contactValue f))
         \<and> map_of (addSquad_payload user sq) ''contact_value'' = Some (JStr (value (contact sq)))
         \<and> (type' (contact sq) = Phone \<or> type' (contact sq) = Text \<longrightarrow>
              (\<forall>c \<in> set (value (contact sq)). is_digit c \<or> c = CHR ''+'')))
   \<and> (\<forall>sq. EditModal_submit m = Some sq \<longrightarrow>
         value (contact sq) =
           (if contactType m = Phone \<or> contactType m = Text
            then sanitizePhone (contactValue m) else trim (contactValue m))
         \<and> map_of (saveEdit_payload sq) ''contact_value'' = Some (JStr (value (contact sq)))
         \<and> (type' (contact sq) = Phone \<or> type' (contact sq) = Text \<longrightarrow>
              (\<forall>c \<in> set (value (contact sq)). is_digit c \<or> c = CHR ''+'')))"
proof -
  have post: "value (contact sq) =
           (if contactType f = Phone \<or> contactType f = Text
            then sanitizePhone (contactValue f) else trim (contactValue f))
         \<and> map_of (addSquad_payload user sq) ''contact_value'' = Some (JStr (value (contact sq)))
         \<and> (type' (contact sq) = Phone \<or> type' (contact sq) = Text \<longrightarrow>
              (\<forall>c \<in> set (value (contact sq)). is_digit c \<or> c = CHR ''+''))"
    if "fst (PostForm_submit f) = Some sq" for sq
    using PostForm_submit_value [OF that] sanitize_chars [of _ "contactValue f"]
    by (auto simp add: addSquad_contact_value)
  have edit: "value (contact sq) =
           (if contactType m = Phone \<or> contactType m = Text
            then sanitizePhone (contactValue m) else trim (contactValue m))
         \<and> map_of (saveEdit_payload sq) ''contact_value'' = Some (JStr (value (contact sq)))
         \<and> (type' (contact sq) = Phone \<or> type' (contact sq) = Text \<longrightarrow>
              (\<forall>c \<in> set (value (contact sq)). is_digit c \<or> c = CHR ''+''))"
    if "EditModal_submit m = Some sq" for sq
    using EditModal_submit_value [OF that] sanitize_chars [of _ "contactValue m"]
    by (auto simp add: saveEdit_contact_value)
  show ?thesis
    using sanitize_keeps [of p] sanitize_chars [of _ p] sanitize_idem [of p] post edit
    by blast
qed

theorem sanitizePhone_digits_plus_witness:
  "sanitizePhone ''+1 (555) 123-4567'' = ''+15551234567''
   \<and> (\<exists>sq. fst (PostForm_submit form_phone) = Some sq
          \<and> type' (contact sq) = Phone \<and> value (contact sq) = ''+15551234567'')
   \<and> (\<exists>sq. EditModal_submit modal_text = Some sq
          \<and> type' (contact sq) = Text \<and> value (contact sq) = ''5551234567'')"
proof -
  have e: "sanitizePhone ''+1 (555) 123-4567'' = ''+15551234567''"
          "sanitizePhone ''555 123-4567'' = ''5551234567''"
    by (simp_all add: sanitizePhone_def not_plus_or_digit_def is_digit_def)
  obtain sq where sq: "fst (PostForm_submit form_phone) = Some sq" "type' (contact sq) = Phone"
    using form_phone_valid by (simp add: PostForm_submit_def form_phone_def)
  obtain sq' where sq': "EditModal_submit modal_text = Some sq'" "type' (contact sq') = Text"
    using modal_text_valid by (simp add: EditModal_submit_def modal_text_def)
  have c: "contactType form_phone = Phone" "contactValue form_phone = ''+1 (555) 123-4567''"
          "contactType modal_text = Text" "contactValue modal_text = ''555 123-4567''"
    by (simp_all add: form_phone_def modal_text_def)
  note T = sanitizePhone_digits_plus [of "''+1 (555) 123-4567''" form_phone None modal_text]
  from T sq(1) have "value (contact sq) =
      (if contactType form_phone = Phone \<or> contactType form_phone = Text
       then sanitizePhone (contactValue form_phone) else trim (contactValue form_phone))"
    by blast
  with c e have v: "value (contact sq) = ''+15551234567''" by simp
  from T sq'(1) have "value (contact sq') =
      (if contactType modal_text = Phone \<or> contactType modal_text = Text
       then sanitizePhone (contactValue modal_text) else trim (contactValue modal_text))"
    by blast
  with c e have v': "value (contact sq') = ''5551234567''" by simp
  show ?thesis using e(1) sq v sq' v' by blast
qed


subsection \<open>A squad without a time\<close>


lemma instant_at_midnight:
  "NewSquad.time s = [] \<Longrightarrow> squad_instant getTime (at_midnight s) = squad_instant getTime s"
  by (simp add: squad_instant_def at_midnight_def)

lemma instant_normal: "squad_instant getTime (empty_time_to_midnight s) = squad_instant getTime s"
  by (simp add: empty_time_to_midnight_def instant_at_midnight)

lemma byUpcoming_normal:
  "byUpcoming getTime (empty_time_to_midnight a) (empty_time_to_midnight b) = byUpcoming getTime a b"
  by (simp add: byUpcoming_def instant_normal)

lemma haystack_at_midnight: "haystack (at_midnight s) = haystack s"
  by (simp add: haystack_def at_midnight_def)

lemma keeps_at_midnight:
  "NewSquad.time s = [] \<Longrightarrow> keeps getTime now f (at_midnight s) = keeps getTime now f s"
  by (simp add: keeps_def older_than_a_day_def instant_at_midnight haystack_at_midnight)
     (simp add: at_midnight_def)

lemma keeps_normal: "keeps getTime now f (empty_time_to_midnight s) = keeps getTime now f s"
  by (simp add: empty_time_to_midnight_def keeps_at_midnight)

lemma insert_by_map:
  assumes eq: "\<And>a b. cmp (g a) (g b) = cmp a b"
  shows "insert_by cmp (g x) (map g ys) = map g (insert_by cmp x ys)"
  by (induction ys) (simp_all add: eq)

lemma insertion_sort_map:
  assumes eq: "\<And>a b. cmp (g a) (g b) = cmp a b"
  shows "insertion_sort cmp (map g xs) = map g (insertion_sort cmp xs)"
proof (induction xs)
  case Nil
  show ?case by simp
next
  case (Cons x xs)
  have "insertion_sort cmp (map g (x # xs)) = insert_by cmp (g x) (map g (insertion_sort cmp xs))"
    using Cons.IH by simp
  also have "\<dots> = map g (insert_by cmp x (insertion_sort cmp xs))"
    using eq by (rule insert_by_map)
  finally show ?case by simp
qed

lemma insertion_sort_comparator_driven: "comparator_driven insertion_sort"
  unfolding comparator_driven_def
proof (intro allI impI)
  fix cmp :: "'a \<Rightarrow> 'a \<Rightarrow> int option" and g :: "'a \<Rightarrow> 'a" and xs :: "'a list"
  assume "\<forall>a b. cmp (g a) (g b) = cmp a b"
  then have "\<And>a b. cmp (g a) (g b) = cmp a b" by simp
  then show "insertion_sort cmp (map g xs) = map g (insertion_sort cmp xs)"
    by (rule insertion_sort_map)
qed

lemma filter_map_same:
  assumes eq: "\<And>a. P (g a) = P a"
  shows "filter P (map g xs) = map g (filter P xs)"
  by (induction xs) (simp_all add: eq)

lemma visible_normal:
  assumes "comparator_driven arraySort"
  shows "visible arraySort getTime now (map empty_time_to_midnight sqs) f
           = map empty_time_to_midnight (visible arraySort getTime now sqs f)"
proof -
  have "filter (keeps getTime now f) (map empty_time_to_midnight sqs)
          = map empty_time_to_midnight (filter (keeps getTime now f) sqs)"
    by (rule filter_map_same) (rule keeps_normal)
  moreover have "arraySort (byUpcoming getTime) (map empty_time_to_midnight xs)
          = map empty_time_to_midnight (arraySort (byUpcoming getTime) xs)" for xs
    using assms byUpcoming_normal [of getTime] unfolding comparator_driven_def by blast
  ultimately show ?thesis by (simp add: visible_def)
qed

lemma byUpcoming_untimed_left:
  "NewSquad.time s = [] \<Longrightarrow>
     byUpcoming getTime s b
       = (case (getTime (NewSquad.date s @ ''T00:00''),
                getTime (NewSquad.date b @ ''T'' @
                  (if NewSquad.time b = [] then ''00:00'' else NewSquad.time b))) of
            (Some x, Some y) \<Rightarrow> Some (x - y)
          | _ \<Rightarrow> None)"
  by (simp add: byUpcoming_def squad_instant_def)

lemma byUpcoming_untimed_right:
  "NewSquad.time s = [] \<Longrightarrow>
     byUpcoming getTime a s
       = (case (getTime (NewSquad.date a @ ''T'' @
                  (if NewSquad.time a = [] then ''00:00'' else NewSquad.time a)),
                getTime (NewSquad.date s @ ''T00:00'')) of
            (Some x, Some y) \<Rightarrow> Some (x - y)
          | _ \<Rightarrow> None)"
  by (simp add: byUpcoming_def squad_instant_def)

lemma older_untimed:
  "NewSquad.time s = [] \<Longrightarrow>
     older_than_a_day getTime now s
       = (case getTime (NewSquad.date s @ ''T00:00'') of
            Some w \<Rightarrow> w < now - 86400000
          | None \<Rightarrow> False)"
  by (simp add: older_than_a_day_def squad_instant_def)

lemma keeps_untimed:
  "NewSquad.time s = [] \<Longrightarrow>
     keeps getTime now f s
       = (\<not> (onlyUpcoming f
             \<and> (case getTime (NewSquad.date s @ ''T00:00'') of
                   Some w \<Rightarrow> w < now - 86400000
                 | None \<Rightarrow> False))
          \<and> passes_other_filters f s)"
  by (auto simp add: keeps_def older_than_a_day_def squad_instant_def passes_other_filters_def)

text \<open>
  Claim C10. For every squad \<open>s\<close> whose \<open>time\<close> is the empty string:
  the comparator, with \<open>s\<close> in either place, returns the difference between the instant
  of the string \<open>date\<close> followed by \<open>T00:00\<close> and the instant of the other squad
  (\<^verbatim>\<open>NaN\<close> when either does not parse); the age test of the only-upcoming filter
  compares the instant of that same string with \<open>now - 86400000\<close>, and the filter
  callback keeps \<open>s\<close> exactly when that test does not drop it and the other conditions
  pass. These are the results for the same squad timed at 00:00. For whole lists, with a
  sort that looks at the elements through the comparator only: setting every empty time
  to 00:00 before computing \<open>visible\<close> gives the list that setting them afterwards gives.
\<close>

theorem empty_time_is_midnight:
  "(NewSquad.time s = [] \<longrightarrow>
      squad_instant getTime s = getTime (NewSquad.date s @ ''T00:00'')
      \<and> byUpcoming getTime s b
          = (case (getTime (NewSquad.date s @ ''T00:00''),
                   getTime (NewSquad.date b @ ''T'' @
                     (if NewSquad.time b = [] then ''00:00'' else NewSquad.time b))) of
               (Some x, Some y) \<Rightarrow> Some (x - y)
             | _ \<Rightarrow> None)
      \<and> byUpcoming getTime a s
          = (case (getTime (NewSquad.date a @ ''T'' @
                     (if NewSquad.time a = [] then ''00:00'' else NewSquad.time a)),
                   getTime (NewSquad.date s @ ''T00:00'')) of
               (Some x, Some y) \<Rightarrow> Some (x - y)
             | _ \<Rightarrow> None)
      \<and> older_than_a_day getTime now s
          = (case getTime (NewSquad.date s @ ''T00:00'') of
               Some w \<Rightarrow> w < now - 86400000
             | None \<Rightarrow> False)
      \<and> keeps getTime now f s
          = (\<not> (onlyUpcoming f
                \<and> (case getTime (NewSquad.date s @ ''T00:00'') of
                      Some w \<Rightarrow> w < now - 86400000
                    | None \<Rightarrow> False))
             \<and> passes_other_filters f s)
      \<and> squad_instant getTime s = squad_instant getTime (at_midnight s)
      \<and> byUpcoming getTime s b = byUpcoming getTime (at_midnight s) b
      \<and> byUpcoming getTime a s = byUpcoming getTime a (at_midnight s)
      \<and> older_than_a_day getTime now s = older_than_a_day getTime now (at_midnight s)
      \<and> keeps getTime now f s = keeps getTime now f (at_midnight s))
   \<and> (comparator_driven arraySort \<longrightarrow>
        visible arraySort getTime now (map empty_time_to_midnight sqs) f
          = map empty_time_to_midnight (visible arraySort getTime now sqs f))"
proof -
  have 1: "squad_instant getTime s = getTime (NewSquad.date s @ ''T00:00'')"
    if "NewSquad.time s = []"
    using that by (simp add: squad_instant_def)
  have 2: "byUpcoming getTime s b = byUpcoming getTime (at_midnight s) b"
    "byUpcoming getTime a s = byUpcoming getTime a (at_midnight s)"
    "older_than_a_day getTime now s = older_than_a_day getTime now (at_midnight s)"
    if "NewSquad.time s = []"
    using instant_at_midnight [OF that, of getTime]
    by (simp_all add: byUpcoming_def older_than_a_day_def)
  have 3: "comparator_driven arraySort \<longrightarrow>
        visible arraySort getTime now (map empty_time_to_midnight sqs) f
          = map empty_time_to_midnight (visible arraySort getTime now sqs f)"
    using visible_normal [of arraySort getTime now sqs f] by (rule impI)
  show ?thesis
  proof (intro conjI impI)
    assume t: "NewSquad.time s = []"
    show "squad_instant getTime s = getTime (NewSquad.date s @ ''T00:00'')"
      using t by (rule 1)
    show "byUpcoming getTime s b
          = (case (getTime (NewSquad.date s @ ''T00:00''),
                   getTime (NewSquad.date b @ ''T'' @
                     (if NewSquad.time b = [] then ''00:00'' else NewSquad.time b))) of
               (Some x, Some y) \<Rightarrow> Some (x - y)
             | _ \<Rightarrow> None)"
      using t by (rule byUpcoming_untimed_left)
    show "byUpcoming getTime a s
          = (case (getTime (NewSquad.date a @ ''T'' @
                     (if NewSquad.time a = [] then ''00:00'' else NewSquad.time a)),
                   getTime (NewSquad.date s @ ''T00:00'')) of
               (Some x, Some y) \<Rightarrow> Some (x - y)
             | _ \<Rightarrow> None)"
      using t by (rule byUpcoming_untimed_right)
    show "older_than_a_day getTime now s
          = (case getTime (NewSquad.date s @ ''T00:00'') of
               Some w \<Rightarrow> w < now - 86400000
             | None \<Rightarrow> False)"
      using t by (rule older_untimed)
    show "keeps getTime now f s
          = (\<not> (onlyUpcoming f
                \<and> (case getTime (NewSquad.date s @ ''T00:00'') of
                      Some w \<Rightarrow> w < now - 86400000
                    | None \<Rightarrow> False))
             \<and> passes_other_filters f s)"
      using t by (rule keeps_untimed)
    show "squad_instant getTime s = squad_instant getTime (at_midnight s)"
      using instant_at_midnight [OF t, of getTime] by simp
    show "byUpcoming getTime s b = byUpcoming getTime (at_midnight s) b"
      using t by (rule 2(1))
    show "byUpcoming getTime a s = byUpcoming getTime a (at_midnight s)"
      using t by (rule 2(2))
    show "older_than_a_day getTime now s = older_than_a_day getTime now (at_midnight s)"
      using t by (rule 2(3))
    show "keeps getTime now f s = keeps getTime now f (at_midnight s)"
      using keeps_at_midnight [OF t, of getTime now f] by simp
  next
    assume "comparator_driven arraySort"
    then show "visible arraySort getTime now (map empty_time_to_midnight sqs) f
          = map empty_time_to_midnight (visible arraySort getTime now sqs f)"
      by (rule visible_normal)
  qed
qed

theorem empty_time_is_midnight_witness:
  "NewSquad.time squad_untimed = []
   \<and> squad_instant clock_A squad_untimed = Some 1704067200000
   \<and> byUpcoming clock_A squad_untimed squad_A = Some (- 32400000)
   \<and> byUpcoming clock_A squad_A squad_untimed = Some 32400000
   \<and> older_than_a_day clock_A 1704153600001 squad_untimed
   \<and> \<not> older_than_a_day clock_A 1704153600000 squad_untimed
   \<and> \<not> keeps clock_A 1704153600001 (filters app_A) squad_untimed
   \<and> keeps clock_A 1704153600000 (filters app_A) squad_untimed
   \<and> byUpcoming clock_A squad_untimed squad_A
       = byUpcoming clock_A (at_midnight squad_untimed) squad_A
   \<and> keeps clock_A 1704153600000 (filters app_A) squad_untimed
       = keeps clock_A 1704153600000 (filters app_A) (at_midnight squad_untimed)
   \<and> comparator_driven
        (insertion_sort :: (Squad \<Rightarrow> Squad \<Rightarrow> int option) \<Rightarrow> Squad list \<Rightarrow> Squad list)
   \<and> visible insertion_sort clock_A 1704153600000
         (map empty_time_to_midnight [squad_A, squad_untimed]) (filters app_A)
       = map empty_time_to_midnight
           (visible insertion_sort clock_A 1704153600000 [squad_A, squad_untimed] (filters app_A))"
proof -
  have t: "NewSquad.time squad_untimed = []" by (simp add: squad_untimed_def)
  have d: "NewSquad.date squad_untimed = ''2024-01-01''" "NewSquad.date squad_A = ''2024-01-01''"
    "NewSquad.time squad_A = ''09:00''"
    by (simp_all add: squad_untimed_def squad_A_def)
  have c: "clock_A ''2024-01-01T00:00'' = Some 1704067200000"
    "clock_A ''2024-01-01T09:00'' = Some 1704099600000"
    by (simp_all add: clock_A_def)
  have p: "passes_other_filters (filters app_A) squad_untimed" "onlyUpcoming (filters app_A)"
    by (simp_all add: passes_other_filters_def app_A_def)
  note E1 = empty_time_is_midnight
    [of squad_untimed clock_A squad_A squad_A 1704153600001 "filters app_A" insertion_sort "[]",
     THEN conjunct1, rule_format, OF t]
  note E0 = empty_time_is_midnight
    [of squad_untimed clock_A squad_A squad_A 1704153600000 "filters app_A" insertion_sort "[]",
     THEN conjunct1, rule_format, OF t]
  note L = empty_time_is_midnight
    [of squad_untimed clock_A squad_A squad_A 1704153600000 "filters app_A" insertion_sort
       "[squad_A, squad_untimed]",
     THEN conjunct2, rule_format, OF insertion_sort_comparator_driven]
  have 1: "squad_instant clock_A squad_untimed = Some 1704067200000"
    using E0 [THEN conjunct1] d c by simp
  have 2: "byUpcoming clock_A squad_untimed squad_A = Some (- 32400000)"
    using E0 [THEN conjunct2, THEN conjunct1] d c by simp
  have 3: "byUpcoming clock_A squad_A squad_untimed = Some 32400000"
    using E0 [THEN conjunct2, THEN conjunct2, THEN conjunct1] d c by simp
  have 4: "older_than_a_day clock_A 1704153600001 squad_untimed"
    using E1 [THEN conjunct2, THEN conjunct2, THEN conjunct2, THEN conjunct1] d c by simp
  have 5: "\<not> older_than_a_day clock_A 1704153600000 squad_untimed"
    using E0 [THEN conjunct2, THEN conjunct2, THEN conjunct2, THEN conjunct1] d c by simp
  have 6: "\<not> keeps clock_A 1704153600001 (filters app_A) squad_untimed"
    using E1 [THEN conjunct2, THEN conjunct2, THEN conjunct2, THEN conjunct2, THEN conjunct1]
      d c p
    by simp
  have 7: "keeps clock_A 1704153600000 (filters app_A) squad_untimed"
    using E0 [THEN conjunct2, THEN conjunct2, THEN conjunct2, THEN conjunct2, THEN conjunct1]
      d c p
    by simp
  from E0 have 8: "byUpcoming clock_A squad_untimed squad_A
                    = byUpcoming clock_A (at_midnight squad_untimed) squad_A"
    by (elim conjE) assumption
  from E0 have 9: "keeps clock_A 1704153600000 (filters app_A) squad_untimed
                    = keeps clock_A 1704153600000 (filters app_A) (at_midnight squad_untimed)"
    by (elim conjE) assumption
  show ?thesis
    using t 1 2 3 4 5 6 7 8 9 insertion_sort_comparator_driven L by (intro conjI)
qed

end
